theory Spec2Isabelle
  imports Main "HOL-Library.Sublist" "HOL-Library.AList"
begin

section \<open>Values thrown by the migration code\<close>

text \<open>
  The TypeScript sources throw and rethrow JavaScript values. A thrown value is one of:
  a \<open>UserError\<close> or a \<open>SystemError\<close> of the toolkit API (both are subclasses of
  \<open>Error\<close>; they carry a source, a name and a message), any other \<open>Error\<close> object
  (carrying its message), a value that is not an \<open>Error\<close> but has a \<open>toString()\<close>,
  represented by the string that call gives, or \<open>undefined\<close> or \<open>null\<close>
  (\<open>Nullish\<close>), on which reading any property, \<open>toString\<close> included, raises a
  \<open>TypeError\<close>.
\<close>

datatype thrown =
    UserError string string string
  | SystemError string string string
  | OtherError string
  | NonError string
  | Nullish

fun instanceofError :: "thrown \<Rightarrow> bool" where
  "instanceofError (UserError src nm msg) = True"
| "instanceofError (SystemError src nm msg) = True"
| "instanceofError (OtherError msg) = True"
| "instanceofError (NonError s) = False"
| "instanceofError Nullish = False"

fun instanceofUserError :: "thrown \<Rightarrow> bool" where
  "instanceofUserError (UserError src nm msg) = True"
| "instanceofUserError e = False"

fun instanceofSystemError :: "thrown \<Rightarrow> bool" where
  "instanceofSystemError (SystemError src nm msg) = True"
| "instanceofSystemError e = False"

text \<open>\<open>error.message\<close> of an \<open>Error\<close>. The sources read the property off
  \<open>Error\<close> objects only; a value that is no \<open>Error\<close> has no such property, and the
  function gives the empty string there.\<close>

fun message :: "thrown \<Rightarrow> string" where
  "message (UserError src nm msg) = msg"
| "message (SystemError src nm msg) = msg"
| "message (OtherError msg) = msg"
| "message (NonError s) = []"
| "message Nullish = []"

text \<open>\<open>error.toString()\<close>: \<open>Error.prototype.toString\<close> gives \<open>name: message\<close>;
  on \<open>undefined\<close> or \<open>null\<close> the call itself throws.\<close>

definition typeErrorToString :: thrown where
  "typeErrorToString = OtherError ''Cannot read properties of undefined (reading 'toString')''"

fun toString :: "thrown \<Rightarrow> thrown + string" where
  "toString (UserError src nm msg) = Inr (nm @ '': '' @ msg)"
| "toString (SystemError src nm msg) = Inr (nm @ '': '' @ msg)"
| "toString (OtherError msg) = Inr (''Error: '' @ msg)"
| "toString (NonError s) = Inr s"
| "toString Nullish = Inl typeErrorToString"

section \<open>Host detection of the Office add-in generator (generator.ts)\<close>

text \<open>
  \<open>getHost\<close> loads the add-in manifest and switches on
  \<open>addinManifest.extensions?.[0].requirements?.scopes?.[0]\<close>. The manifest is parsed
  JSON: its optional fields are options, and an element of the \<open>extensions\<close> array is
  an extension object or \<open>null\<close> (\<open>None\<close>). The chain
  \<open>extensions?.[0].requirements\<close> guards only against a missing \<open>extensions\<close>: on
  an empty array element 0 is \<open>undefined\<close>, and reading \<open>.requirements\<close> of
  \<open>undefined\<close> or of \<open>null\<close> raises a \<open>TypeError\<close>.
\<close>

record Requirements =
  scopes :: "string list option"

record Extension =
  requirements :: "Requirements option"

record DevPreviewSchema =
  extensions :: "Extension option list option"

definition typeErrorUndefined :: thrown where
  "typeErrorUndefined = OtherError ''Cannot read properties of undefined (reading 'requirements')''"

definition typeErrorNull :: thrown where
  "typeErrorNull = OtherError ''Cannot read properties of null (reading 'requirements')''"

definition firstScope :: "DevPreviewSchema \<Rightarrow> thrown + string option" where
  "firstScope addinManifest =
     (case extensions addinManifest of
        None \<Rightarrow> Inr None
      | Some [] \<Rightarrow> Inl typeErrorUndefined
      | Some (None # rest) \<Rightarrow> Inl typeErrorNull
      | Some (Some ext # rest) \<Rightarrow>
          (case requirements ext of
             None \<Rightarrow> Inr None
           | Some req \<Rightarrow>
               (case scopes req of
                  None \<Rightarrow> Inr None
                | Some [] \<Rightarrow> Inr None
                | Some (sc # scs) \<Rightarrow> Inr (Some sc))))"

text \<open>The switch: \<open>host\<close> starts as \<open>"Outlook"\<close>; the only case label left is
  \<open>"mail"\<close>, which assigns \<open>"Outlook"\<close> and falls out of the switch. The loader
  \<open>ManifestUtil.loadFromPath\<close> is an external call and is a parameter.\<close>

definition getHost ::
  "(string \<Rightarrow> thrown + DevPreviewSchema) \<Rightarrow> string \<Rightarrow> thrown + string" where
  "getHost loadFromPath addinManifestPath =
     (case loadFromPath addinManifestPath of
        Inl e \<Rightarrow> Inl e
      | Inr addinManifest \<Rightarrow>
          (case firstScope addinManifest of
             Inl e \<Rightarrow> Inl e
           | Inr sc \<Rightarrow>
               (let host = ''Outlook'' in
                Inr (if sc = Some ''mail'' then ''Outlook'' else host))))"

section \<open>The core migration pipeline (projectMigratorV3.ts)\<close>

text \<open>
  A step of the pipeline is an async function over the shared, mutable
  \<open>MigrationContext\<close>. It is modelled as a function from the context to the context
  as the step left it, together with the value it threw, if any: a step that throws half
  way has still mutated the context up to that point. The type of the context is a
  parameter here; the steps that the source defines are modelled further down.
\<close>

type_synonym 'c step = "'c \<Rightarrow> 'c \<times> thrown option"

datatype Migration =
    PreMigration
  | GenerateSettingsJson
  | GenerateAppYml
  | ReplacePlaceholderForManifests
  | StatesMigration
  | UpdateLaunchJson

definition subMigrations :: "Migration list" where
  "subMigrations =
     [PreMigration, GenerateSettingsJson, GenerateAppYml,
      ReplacePlaceholderForManifests, StatesMigration, UpdateLaunchJson]"

text \<open>\<open>for (const subMigration of subMigrations) await subMigration(context)\<close>: each
  step is awaited before the next is called, and a throw leaves the loop.\<close>

fun runMigrations :: "(Migration \<Rightarrow> 'c step) \<Rightarrow> Migration list \<Rightarrow> 'c step" where
  "runMigrations run [] c = (c, None)"
| "runMigrations run (m # ms) c =
     (case run m c of
        (c', Some e) \<Rightarrow> (c', Some e)
      | (c', None) \<Rightarrow> runMigrations run ms c')"

definition migrate :: "(Migration \<Rightarrow> 'c step) \<Rightarrow> 'c step" where
  "migrate run c = runMigrations run subMigrations c"

text \<open>A step instrumented to record, in a second component of the context, that it was
  started. Used to state the order in which \<open>migrate\<close> starts the steps.\<close>

definition traced :: "(Migration \<Rightarrow> 'c step) \<Rightarrow> Migration \<Rightarrow> ('c \<times> Migration list) step" where
  "traced run m = (\<lambda>(c, tr). case run m c of (c', r) \<Rightarrow> ((c', tr @ [m]), r))"

subsection \<open>Rollback and the wrapper around the pipeline\<close>

text \<open>
  \<open>cleanModifiedPaths\<close>, \<open>restoreBackup\<close> and \<open>cleanTeamsfx\<close> are async methods of
  \<open>MigrationContext\<close>, whose source is not part of the files at hand; they are
  parameters, and like every step they return the context as they left it and the value
  they threw, if any. \<open>rollbackMigration\<close> awaits them one after the other with no
  \<open>try\<close> around them: a phase that throws ends the rollback, the phases after it are
  not started, and its error is the one that leaves \<open>rollbackMigration\<close>.
\<close>

record 'c RollbackOps =
  cleanModifiedPaths :: "'c step"
  restoreBackup :: "'c step"
  cleanTeamsfx :: "'c step"

definition rollbackMigration :: "'c RollbackOps \<Rightarrow> 'c step" where
  "rollbackMigration ops c =
     (case cleanModifiedPaths ops c of
        (c1, Some e) \<Rightarrow> (c1, Some e)
      | (c1, None) \<Rightarrow>
          (case restoreBackup ops c1 of
             (c2, Some e) \<Rightarrow> (c2, Some e)
           | (c2, None) \<Rightarrow> cleanTeamsfx ops c2))"

text \<open>The telemetry events the wrapper sends, in order; the error event carries the
  classified \<open>fxError\<close>.\<close>

datatype TelemetryEvent =
    ProjectMigratorMigrateStartV3
  | ProjectMigratorMigrateV3
  | ProjectMigratorV3Error thrown

text \<open>\<open>Component.core\<close> and \<open>ErrorConstants.unhandledError\<close> are string constants
  of other modules; nothing below depends on their values.\<close>

definition coreSource :: string where
  "coreSource = ''core''"

definition unhandledError :: string where
  "unhandledError = ''UnhandledError''"

text \<open>The head of the catch block. \<open>fxError\<close> is \<open>error\<close> itself when that is a
  \<open>UserError\<close> or a \<open>SystemError\<close>. Otherwise \<open>error\<close> is first replaced by
  \<open>new Error(error.toString())\<close> when it is not an \<open>Error\<close>, which throws out of
  the catch block when \<open>toString\<close> cannot be called, and \<open>fxError\<close> is a new
  \<open>SystemError\<close> named \<open>unhandledError\<close> with the message of \<open>error\<close>. The result
  is the pair of \<open>error\<close> and \<open>fxError\<close> as they stand before the telemetry call.\<close>

definition coerced :: "thrown \<Rightarrow> thrown + thrown" where
  "coerced error =
     (if \<not> instanceofError error
      then (case toString error of
              Inl t \<Rightarrow> Inl t
            | Inr s \<Rightarrow> Inr (OtherError s))
      else Inr error)"

definition classified :: "thrown \<Rightarrow> thrown + thrown \<times> thrown" where
  "classified error =
     (if instanceofUserError error \<or> instanceofSystemError error then Inr (error, error)
      else (case coerced error of
              Inl t \<Rightarrow> Inl t
            | Inr error' \<Rightarrow>
                Inr (error', SystemError coreSource unhandledError (message error'))))"

text \<open>\<open>wrapRunMigration\<close> returns the context, the telemetry sent and the value thrown
  to the caller. \<open>showSummaryReport\<close> has an empty body. After the error event is
  sent, \<open>rollbackMigration\<close> is awaited; when it throws, its error leaves the catch
  block, and otherwise the statement that ends the block, \<open>throw error\<close>, is reached.\<close>

definition wrapRunMigration ::
  "'c RollbackOps \<Rightarrow> 'c step \<Rightarrow> 'c \<Rightarrow> 'c \<times> TelemetryEvent list \<times> thrown option" where
  "wrapRunMigration ops exec c =
     (case exec c of
        (c', None) \<Rightarrow>
          (c', [ProjectMigratorMigrateStartV3, ProjectMigratorMigrateV3], None)
      | (c', Some error) \<Rightarrow>
          (case classified error of
             Inl t \<Rightarrow> (c', [ProjectMigratorMigrateStartV3], Some t)
           | Inr (error', fxError) \<Rightarrow>
               (case rollbackMigration ops c' of
                  (c'', Some t) \<Rightarrow>
                    (c'', [ProjectMigratorMigrateStartV3, ProjectMigratorV3Error fxError],
                     Some t)
                | (c'', None) \<Rightarrow>
                    (c'', [ProjectMigratorMigrateStartV3, ProjectMigratorV3Error fxError],
                     Some error'))))"

text \<open>Rollback operations over a context that is nothing but the list of the calls made
  on it, used to exhibit the order of the calls on concrete runs; and the same operations
  with a \<open>cleanModifiedPaths\<close> that throws.\<close>

definition loggingOps :: "string list RollbackOps" where
  "loggingOps =
     \<lparr> cleanModifiedPaths = (\<lambda>c. (c @ [''cleanModifiedPaths''], None)),
       restoreBackup = (\<lambda>c. (c @ [''restoreBackup''], None)),
       cleanTeamsfx = (\<lambda>c. (c @ [''cleanTeamsfx''], None)) \<rparr>"

definition failingCleanOps :: "string list RollbackOps" where
  "failingCleanOps =
     \<lparr> cleanModifiedPaths =
         (\<lambda>c. (c @ [''cleanModifiedPaths''], Some (OtherError ''EPERM: operation not permitted''))),
       restoreBackup = (\<lambda>c. (c @ [''restoreBackup''], None)),
       cleanTeamsfx = (\<lambda>c. (c @ [''cleanTeamsfx''], None)) \<rparr>"

text \<open>Concrete inputs used to run the definitions above: a loader that returns a given
  manifest, a pipeline interpretation over a counter in which the third step throws, an
  \<open>exec\<close> that throws a plain \<open>Error\<close> after touching the context, and one that
  throws \<open>undefined\<close>.\<close>

definition loadedManifest :: "DevPreviewSchema \<Rightarrow> string \<Rightarrow> thrown + DevPreviewSchema" where
  "loadedManifest m p = Inr m"

definition manifestWithScope :: "string \<Rightarrow> DevPreviewSchema" where
  "manifestWithScope sc =
     \<lparr> extensions = Some [Some \<lparr> requirements = Some \<lparr> scopes = Some [sc] \<rparr> \<rparr>] \<rparr>"

definition manifestNoExtension :: DevPreviewSchema where
  "manifestNoExtension = \<lparr> extensions = Some [] \<rparr>"

definition manifestNullExtension :: DevPreviewSchema where
  "manifestNullExtension = \<lparr> extensions = Some [None] \<rparr>"

definition manifestNoExtensions :: DevPreviewSchema where
  "manifestNoExtensions = \<lparr> extensions = None \<rparr>"

definition appYmlThrows :: "Migration \<Rightarrow> nat step" where
  "appYmlThrows m c =
     (if m = GenerateAppYml then (c, Some (OtherError ''ENOENT: provision.bicep''))
      else (Suc c, None))"

definition throwsBoom :: "string list step" where
  "throwsBoom c = (c @ [''exec''], Some (OtherError ''boom''))"

definition throwsUndefined :: "string list step" where
  "throwsUndefined c = (c @ [''exec''], Some Nullish)"

section \<open>The task list of the debug migration (debug-task migration source)\<close>

text \<open>
  \<open>tasks.json\<close> is parsed by \<open>comment-json\<close> into ordinary JavaScript values that
  also carry the comments; the comments play no part in what follows and are not
  modelled. An object is the list of its entries in insertion order, with \<open>map_of\<close>
  for a property read, \<open>AList.update\<close> for an assignment (an existing key keeps its
  place, a new key goes last) and \<open>AList.delete\<close> for \<open>delete\<close>. A property that is
  \<open>undefined\<close> is absent. Numbers are only ever tested for being zero here, and are
  integers.
\<close>

datatype json =
    JNull
  | JBool bool
  | JNum int
  | JStr string
  | JArr "json list"
  | JObj "(string \<times> json) list"

text \<open>JavaScript truthiness, as used by \<open>task["dependsOn"] &&\<close> and the like.\<close>

fun truthy :: "json \<Rightarrow> bool" where
  "truthy JNull = False"
| "truthy (JBool b) = b"
| "truthy (JNum n) = (n \<noteq> 0)"
| "truthy (JStr s) = (s \<noteq> [])"
| "truthy (JArr xs) = True"
| "truthy (JObj kvs) = True"

fun isCommentObject :: "json \<Rightarrow> bool" where
  "isCommentObject (JObj kvs) = True"
| "isCommentObject v = False"

fun isCommentArray :: "json \<Rightarrow> bool" where
  "isCommentArray (JArr xs) = True"
| "isCommentArray v = False"

text \<open>\<open>task[key]\<close> of any value: \<open>None\<close> is \<open>undefined\<close>.\<close>

fun getProp :: "json \<Rightarrow> string \<Rightarrow> json option" where
  "getProp (JObj kvs) k = map_of kvs k"
| "getProp v k = None"

text \<open>\<open>Array.prototype.findIndex\<close> (\<open>None\<close> is \<open>-1\<close>) and
  \<open>Array.prototype.splice(start, deleteCount, ...items)\<close> for a start within the
  array.\<close>

fun findIndex :: "('a \<Rightarrow> bool) \<Rightarrow> 'a list \<Rightarrow> nat option" where
  "findIndex P [] = None"
| "findIndex P (x # xs) =
     (if P x then Some 0 else map_option Suc (findIndex P xs))"

definition spliceArr :: "nat \<Rightarrow> nat \<Rightarrow> 'a list \<Rightarrow> 'a list \<Rightarrow> 'a list" where
  "spliceArr start deleteCount items xs = take start xs @ items @ drop (start + deleteCount) xs"

text \<open>The branch of \<open>replaceInDependsOn\<close> for a \<open>dependsOn\<close> that is an array: the
  array is changed in place.\<close>

definition replaceInArray :: "string \<Rightarrow> string list \<Rightarrow> json list \<Rightarrow> json list" where
  "replaceInArray label replacements dependsOn =
     (case findIndex (\<lambda>v. v = JStr label) dependsOn of
        None \<Rightarrow> dependsOn
      | Some index \<Rightarrow>
          (if replacements \<noteq> [] \<and> JStr (hd replacements) \<notin> set dependsOn
           then spliceArr index 1 (map JStr replacements) dependsOn
           else spliceArr index 1 [] dependsOn))"

text \<open>The body of the loop of \<open>replaceInDependsOn\<close>, for one task.\<close>

definition replaceInTask :: "string \<Rightarrow> string list \<Rightarrow> json \<Rightarrow> json" where
  "replaceInTask label replacements task =
     (case task of
        JObj kvs \<Rightarrow>
          (case map_of kvs ''dependsOn'' of
             None \<Rightarrow> task
           | Some d \<Rightarrow>
               (if \<not> truthy d then task
                else (case d of
                   JStr s \<Rightarrow>
                     (if s = label then
                        (if replacements \<noteq> []
                         then JObj (AList.update ''dependsOn'' (JArr (map JStr replacements)) kvs)
                         else JObj (AList.delete ''dependsOn'' kvs))
                      else task)
                 | JArr ds \<Rightarrow>
                     JObj (AList.update ''dependsOn''
                             (JArr (replaceInArray label replacements ds)) kvs)
                 | _ \<Rightarrow> task)))
      | _ \<Rightarrow> task)"

definition replaceInDependsOn :: "string \<Rightarrow> json list \<Rightarrow> string list \<Rightarrow> json list" where
  "replaceInDependsOn label tasks replacements = map (replaceInTask label replacements) tasks"

text \<open>\<open>getLabels\<close>: the labels of the tasks that are objects with a string label, in
  order.\<close>

fun getLabels :: "json list \<Rightarrow> string list" where
  "getLabels [] = []"
| "getLabels (task # tasks) =
     (case getProp task ''label'' of
        Some (JStr l) \<Rightarrow> l # getLabels tasks
      | _ \<Rightarrow> getLabels tasks)"

text \<open>Reading \<open>dependsOn\<close> back after a relabelling.\<close>

definition dependsOnOf :: "json \<Rightarrow> json option" where
  "dependsOnOf task = getProp task ''dependsOn''"

definition taskB :: "json \<Rightarrow> json" where
  "taskB d = JObj [(''label'', JStr ''B''), (''dependsOn'', d), (''type'', JStr ''shell'')]"

section \<open>The migration context and the project tree\<close>

text \<open>
  The steps read the project through \<open>fs-extra\<close> and write it through the methods of
  \<open>MigrationContext\<close>. The project tree maps a path, relative to \<open>projectPath\<close>, to
  the node found there: a regular file with its text, or a folder. Every path joined in
  the steps is made of plain names, so \<open>path.join\<close> is concatenation with a slash.
\<close>

type_synonym path = string

datatype node = File string | Folder

record MigrationContext =
  tree :: "path \<rightharpoonup> node"
  snapshot :: "path \<rightharpoonup> node"
  backupPaths :: "path list"
  modifiedPaths :: "path list"

definition pathJoin :: "path \<Rightarrow> path \<Rightarrow> path" where
  "pathJoin a b = a @ ''/'' @ b"

text \<open>\<open>p\<close> itself or a path below it.\<close>

definition within :: "path \<Rightarrow> path \<Rightarrow> bool" where
  "within p q = (q = p \<or> prefix (p @ ''/'') q)"

text \<open>\<open>fs.pathExists\<close> and \<open>context.fsPathExists\<close> on a path below the project, and
  \<open>fs.readFile(path, "utf8")\<close>, which rejects on a missing path and on a folder.\<close>

definition fsPathExists :: "MigrationContext \<Rightarrow> path \<Rightarrow> bool" where
  "fsPathExists ctx p = (tree ctx p \<noteq> None)"

definition readFile :: "MigrationContext \<Rightarrow> path \<Rightarrow> thrown + string" where
  "readFile ctx p =
     (case tree ctx p of
        Some (File s) \<Rightarrow> Inr s
      | Some Folder \<Rightarrow> Inl (OtherError (''EISDIR: illegal operation on a directory, read ''  @ p))
      | None \<Rightarrow> Inl (OtherError (''ENOENT: no such file or directory, open '' @ p)))"

text \<open>
  Modelled from the spec: the methods of \<open>MigrationContext\<close> (its source is not part
  of the files at hand), after section 4.2 of the specification. \<open>backup\<close> copies an
  existing path, with what is below it, into the backup area, records it in
  \<open>backupPaths\<close> and returns whether the path existed. \<open>fsEnsureDir\<close>,
  \<open>fsWriteFile\<close>, \<open>fsCreateFile\<close> and \<open>fsCopy\<close> record their target in
  \<open>modifiedPaths\<close> and perform the write; \<open>fsCreateFile\<close> makes an empty file where
  there is none and leaves an existing one as it is; \<open>fsCopy\<close> copies a file, or a
  folder with what is below it.
\<close>

definition backup :: "MigrationContext \<Rightarrow> path \<Rightarrow> bool \<times> MigrationContext" where
  "backup ctx p =
     (if fsPathExists ctx p
      then (True, ctx\<lparr> snapshot := (\<lambda>q. if within p q then tree ctx q else snapshot ctx q),
                       backupPaths := backupPaths ctx @ [p] \<rparr>)
      else (False, ctx))"

definition fsEnsureDir :: "MigrationContext \<Rightarrow> path \<Rightarrow> MigrationContext" where
  "fsEnsureDir ctx p =
     ctx\<lparr> modifiedPaths := modifiedPaths ctx @ [p],
          tree := (if tree ctx p = None then (tree ctx)(p \<mapsto> Folder) else tree ctx) \<rparr>"

definition fsWriteFile :: "MigrationContext \<Rightarrow> path \<Rightarrow> string \<Rightarrow> MigrationContext" where
  "fsWriteFile ctx p txt =
     ctx\<lparr> modifiedPaths := modifiedPaths ctx @ [p], tree := (tree ctx)(p \<mapsto> File txt) \<rparr>"

definition fsCreateFile :: "MigrationContext \<Rightarrow> path \<Rightarrow> MigrationContext" where
  "fsCreateFile ctx p =
     ctx\<lparr> modifiedPaths := modifiedPaths ctx @ [p],
          tree := (if tree ctx p = None then (tree ctx)(p \<mapsto> File []) else tree ctx) \<rparr>"

definition fsCopy :: "MigrationContext \<Rightarrow> path \<Rightarrow> path \<Rightarrow> MigrationContext" where
  "fsCopy ctx src dst =
     ctx\<lparr> modifiedPaths := modifiedPaths ctx @ [dst],
          tree := (\<lambda>q. if within dst q
                        then (case tree ctx (src @ drop (length dst) q) of
                                Some n \<Rightarrow> Some n
                              | None \<Rightarrow> tree ctx q)
                        else tree ctx q) \<rparr>"

section \<open>The launch-configuration step (projectMigratorV3.ts)\<close>



text \<open>The three patterns and their replacement strings, as the source writes them.\<close>

definition teamsAppIdOld :: string where
  "teamsAppIdOld = ''${teamsAppId}''"


definition localTeamsAppIdOld :: string where
  "localTeamsAppIdOld = ''${localTeamsAppId}''"


definition localTeamsAppInternalIdOld :: string where
  "localTeamsAppInternalIdOld = ''${localTeamsAppInternalId}''"




text \<open>
  The substitution table in the words of the specification: the text is cut, from the
  left, into occurrences of the three tokens and single characters of other text; each
  token is written as its replacement and every other character as itself.
\<close>

datatype segment = TeamsAppId | LocalTeamsAppId | LocalTeamsAppInternalId | Other char

fun legacyText :: "segment \<Rightarrow> string" where
  "legacyText TeamsAppId = teamsAppIdOld"
| "legacyText LocalTeamsAppId = localTeamsAppIdOld"
| "legacyText LocalTeamsAppInternalId = localTeamsAppInternalIdOld"
| "legacyText (Other c) = [c]"


text \<open>The next segment at the head of a text, if it is one of the tokens.\<close>

definition tokenAt :: "string \<Rightarrow> segment option" where
  "tokenAt s =
     (if prefix teamsAppIdOld s then Some TeamsAppId
      else if prefix localTeamsAppIdOld s then Some LocalTeamsAppId
      else if prefix localTeamsAppInternalIdOld s then Some LocalTeamsAppInternalId
      else None)"

function segments :: "string \<Rightarrow> segment list" where
  "segments [] = []"
| "segments (c # cs) =
     (case tokenAt (c # cs) of
        Some t \<Rightarrow> t # segments (drop (length (legacyText t)) (c # cs))
      | None \<Rightarrow> Other c # segments cs)"
  by pat_completeness auto
termination
proof (relation "measure length")
  show "wf (measure length)" by simp
next
  fix c :: char and cs t
  assume "tokenAt (c # cs) = Some t"
  then have "legacyText t \<noteq> []"
    by (cases t)
       (auto simp: tokenAt_def teamsAppIdOld_def localTeamsAppIdOld_def
          localTeamsAppInternalIdOld_def split: if_splits)
  then show "(drop (length (legacyText t)) (c # cs), c # cs) \<in> measure length"
    by (cases "legacyText t") simp_all
next
  fix c :: char and cs
  show "(cs, c # cs) \<in> measure length" by simp
qed


section \<open>The manifest step (projectMigratorV3.ts)\<close>

text \<open>
  Modelled from the spec: \<open>ReadFileError\<close> of the core's error module (not part of the
  files at hand) makes the classified hard error for a legacy file that is missing or
  cannot be read (section 7, a malformed project), carrying the message of the
  \<open>Error\<close> it is given.
\<close>

definition ReadFileError :: "thrown \<Rightarrow> thrown" where
  "ReadFileError e = SystemError coreSource ''ReadFileError'' (message e)"

text \<open>The folder and file names the step joins: \<open>TemplateFolderName\<close>,
  \<open>AppPackageFolderName\<close> and \<open>MANIFEST_TEMPLATE_CONSOLIDATE\<close> are constants of the
  toolkit; the values are the ones the step's own error messages spell out.\<close>

definition TemplateFolderName :: path where
  "TemplateFolderName = ''templates''"

definition AppPackageFolderName :: path where
  "AppPackageFolderName = ''appPackage''"

definition MANIFEST_TEMPLATE_CONSOLIDATE :: path where
  "MANIFEST_TEMPLATE_CONSOLIDATE = ''manifest.template.json''"

definition oldAppPackageFolderPath :: path where
  "oldAppPackageFolderPath = pathJoin TemplateFolderName AppPackageFolderName"

definition oldBicepFilePath :: path where
  "oldBicepFilePath = pathJoin (pathJoin TemplateFolderName ''azure'') ''provision.bicep''"

definition oldManifestPath :: path where
  "oldManifestPath = pathJoin oldAppPackageFolderPath MANIFEST_TEMPLATE_CONSOLIDATE"

definition oldAadManifestPath :: path where
  "oldAadManifestPath = pathJoin oldAppPackageFolderPath ''aad.template.json''"

text \<open>\<open>replacePlaceholdersForV3\<close> (of \<open>MigrationUtils\<close>, not part of the files at
  hand) is a parameter: it maps a manifest text and the bicep text to the rewritten
  manifest text.\<close>

definition replacePlaceholderForManifests ::
  "(string \<Rightarrow> string \<Rightarrow> string) \<Rightarrow> MigrationContext step" where
  "replacePlaceholderForManifests replacePlaceholdersForV3 ctx =
     (case backup ctx oldAppPackageFolderPath of
        (oldAppPackageFolderBackupRes, c1) \<Rightarrow>
          if \<not> oldAppPackageFolderBackupRes
          then (c1, Some (ReadFileError (OtherError ''templates/appPackage does not exist'')))
          else
            (let c2 = fsEnsureDir c1 AppPackageFolderName;
                 oldResourceFolderPath = pathJoin oldAppPackageFolderPath ''resources'';
                 c3 = (if fsPathExists c2 oldResourceFolderPath
                       then fsCopy c2 oldResourceFolderPath
                              (pathJoin AppPackageFolderName ''resources'')
                       else c2)
             in if \<not> fsPathExists c3 oldBicepFilePath
                then (c3, Some (ReadFileError
                        (OtherError ''templates/azure/provision.bicep does not exist'')))
                else
                  (case readFile c3 oldBicepFilePath of
                     Inl e \<Rightarrow> (c3, Some e)
                   | Inr bicepContent \<Rightarrow>
                       if fsPathExists c3 oldManifestPath
                       then
                         (case readFile c3 oldManifestPath of
                            Inl e \<Rightarrow> (c3, Some e)
                          | Inr oldManifest \<Rightarrow>
                              (let manifestPath =
                                     pathJoin AppPackageFolderName MANIFEST_TEMPLATE_CONSOLIDATE;
                                   manifest = replacePlaceholdersForV3 oldManifest bicepContent;
                                   c4 = fsWriteFile c3 manifestPath manifest
                               in if fsPathExists c4 oldAadManifestPath
                                  then
                                    (case readFile c4 oldAadManifestPath of
                                       Inl e \<Rightarrow> (c4, Some e)
                                     | Inr oldAadManifest \<Rightarrow>
                                         (fsWriteFile c4 ''aad.manifest.template.json''
                                            (replacePlaceholdersForV3 oldAadManifest bicepContent),
                                          None))
                                  else (c4, None)))
                       else (c3, Some (ReadFileError (OtherError
                               ''templates/appPackage/manifest.template.json does not exist''))))))"

text \<open>The context after the backup of templates/appPackage and the preparation of
  appPackage (folder and resources).\<close>

definition prepared :: "MigrationContext \<Rightarrow> MigrationContext" where
  "prepared ctx =
     (let c2 = fsEnsureDir (snd (backup ctx oldAppPackageFolderPath)) AppPackageFolderName
      in if fsPathExists c2 (pathJoin oldAppPackageFolderPath ''resources'')
         then fsCopy c2 (pathJoin oldAppPackageFolderPath ''resources'')
                (pathJoin AppPackageFolderName ''resources'')
         else c2)"

text \<open>A project with the templates folder, the bicep file and the application manifest,
  and no identity manifest; and a placeholder rewrite that only tags its input.\<close>

definition manifestProject :: MigrationContext where
  "manifestProject =
     \<lparr> tree = [''templates/appPackage'' \<mapsto> Folder,
               ''templates/azure/provision.bicep'' \<mapsto> File ''bicep'',
               ''templates/appPackage/manifest.template.json'' \<mapsto> File ''manifest''],
       snapshot = Map.empty, backupPaths = [], modifiedPaths = [] \<rparr>"

definition tagV3 :: "string \<Rightarrow> string \<Rightarrow> string" where
  "tagV3 manifest bicepContent = ''v3:'' @ manifest"

section \<open>The state conversion step (projectMigratorV3.ts)\<close>

text \<open>
  What the step takes from outside the files at hand is a parameter: the constant
  \<open>SettingsFolderName\<close> of the toolkit API, and \<open>fsReadDirSync\<close>,
  \<open>readStateFile\<close>, \<open>readBicepContent\<close> and \<open>jsonObjectNamesConvertV3\<close> of
  \<open>v3MigrationUtils\<close>. \<open>readStateFile\<close> gives the parsed state file, or
  \<open>undefined\<close> (\<open>None\<close>); both readers may throw. \<open>jsonObjectNamesConvertV3\<close>
  stands for the call with the file type \<open>FileType.STATE\<close>: it takes the object, the
  prefix and the bicep text and gives the text of the environment file.
\<close>

record StateHelpers =
  SettingsFolderName :: path
  fsReadDirSync :: "MigrationContext \<Rightarrow> path \<Rightarrow> string list"
  readStateFile :: "MigrationContext \<Rightarrow> path \<Rightarrow> thrown + json option"
  readBicepContent :: "MigrationContext \<Rightarrow> thrown + string"
  jsonObjectNamesConvertV3 :: "json \<Rightarrow> string \<Rightarrow> string \<Rightarrow> string"

text \<open>
  \<open>new RegExp("(state\\.)([a-zA-Z0-9_]*)(\\.json)", "g").exec(fileName)\<close>: the
  expression is not anchored, so the leftmost place of the name where \<open>state.\<close>, a run
  of word characters and \<open>.json\<close> follow one another is the match, and group 2, the
  run, is the environment name. The run is the longest one: a dot is no word character,
  so no shorter run can be followed by \<open>.json\<close>.
\<close>

definition isWordChar :: "char \<Rightarrow> bool" where
  "isWordChar c =
     (c \<in> set ''abcdefghijklmnopqrstuvwxyzABCDEFGHIJKLMNOPQRSTUVWXYZ0123456789_'')"

definition matchStateAt :: "string \<Rightarrow> string option" where
  "matchStateAt s =
     (if prefix ''state.'' s
      then (let r = drop (length ''state.'') s
            in if prefix ''.json'' (dropWhile isWordChar r)
               then Some (takeWhile isWordChar r)
               else None)
      else None)"

fun execStateRegex :: "string \<Rightarrow> string option" where
  "execStateRegex [] = matchStateAt []"
| "execStateRegex (c # cs) =
     (case matchStateAt (c # cs) of
        Some envName \<Rightarrow> Some envName
      | None \<Rightarrow> execStateRegex cs)"

definition statesFolder :: path where
  "statesFolder = pathJoin ''.fx'' ''states''"

definition envFilePath :: "StateHelpers \<Rightarrow> string \<Rightarrow> path" where
  "envFilePath h envName = pathJoin (SettingsFolderName h) (''.env.'' @ envName)"

definition stateFilePath :: "string \<Rightarrow> path" where
  "stateFilePath envName = pathJoin statesFolder (''state.'' @ envName @ ''.json'')"

text \<open>\<open>if (obj)\<close> for what \<open>readStateFile\<close> returned.\<close>

fun truthyOpt :: "json option \<Rightarrow> bool" where
  "truthyOpt None = False"
| "truthyOpt (Some v) = truthy v"

text \<open>The loop over the file names, and the step.\<close>

fun statesLoop :: "StateHelpers \<Rightarrow> string list \<Rightarrow> MigrationContext step" where
  "statesLoop h [] ctx = (ctx, None)"
| "statesLoop h (fileName # fileNames) ctx =
     (case execStateRegex fileName of
        None \<Rightarrow> statesLoop h fileNames ctx
      | Some envName \<Rightarrow>
          (let c1 = fsEnsureDir ctx (SettingsFolderName h);
               c2 = fsCreateFile c1 (envFilePath h envName)
           in case readStateFile h c2 (stateFilePath envName) of
                Inl e \<Rightarrow> (c2, Some e)
              | Inr obj \<Rightarrow>
                  if truthyOpt obj
                  then (case readBicepContent h c2 of
                          Inl e \<Rightarrow> (c2, Some e)
                        | Inr bicepContent \<Rightarrow>
                            statesLoop h fileNames
                              (fsWriteFile c2 (envFilePath h envName)
                                 (jsonObjectNamesConvertV3 h (the obj) ''state.'' bicepContent)))
                  else statesLoop h fileNames c2))"

definition statesMigration :: "StateHelpers \<Rightarrow> MigrationContext step" where
  "statesMigration h ctx =
     (if fsPathExists ctx statesFolder
      then statesLoop h (fsReadDirSync h ctx statesFolder) ctx
      else (ctx, None))"

text \<open>The environment names matched in a list of file names, and the node found at the
  path of an environment file once the loop has dealt with that environment: the
  converted text when the state file reads as a truthy value, and otherwise what was
  there, or an empty file when nothing was.\<close>

definition matchedEnvs :: "string list \<Rightarrow> string list" where
  "matchedEnvs fileNames = List.map_filter execStateRegex fileNames"

definition envNode :: "json option \<Rightarrow> (json \<Rightarrow> string) \<Rightarrow> node option \<Rightarrow> node option" where
  "envNode obj conv before =
     (if truthyOpt obj then Some (File (conv (the obj)))
      else (case before of None \<Rightarrow> Some (File []) | Some n \<Rightarrow> Some n))"

text \<open>A project with two state files and a user-data file, helpers that read a fixed
  object from every state file, and a conversion that writes one fixed line.\<close>

definition demoState :: json where
  "demoState =
     JObj [(''fx-resource-frontend-hosting'', JObj [(''endpoint'', JStr ''https://x'')])]"

definition demoHelpers :: StateHelpers where
  "demoHelpers =
     \<lparr> SettingsFolderName = ''teamsfx'',
       fsReadDirSync = (\<lambda>c p. [''state.dev.json'', ''dev.userdata'', ''state.local.json'']),
       readStateFile = (\<lambda>c p. Inr (Some demoState)),
       readBicepContent = (\<lambda>c. Inr ''bicep''),
       jsonObjectNamesConvertV3 = (\<lambda>obj pre bicepContent. ''ENDPOINT=https://x'') \<rparr>"

definition statesProject :: MigrationContext where
  "statesProject =
     \<lparr> tree = [''.fx'' \<mapsto> Folder, ''.fx/states'' \<mapsto> Folder,
               ''.fx/states/state.dev.json'' \<mapsto> File ''{}'',
               ''.fx/states/state.local.json'' \<mapsto> File ''{}'',
               ''.fx/states/dev.userdata'' \<mapsto> File []],
       snapshot = Map.empty, backupPaths = [], modifiedPaths = [] \<rparr>"

text \<open>A project whose \<open>.fx/states\<close> holds nothing but a copy of a state file kept
  under another name, \<open>state.dev.json.bak\<close>, and helpers over it: the folder is
  listed as the tree has it, and a state file that does not exist reads as
  \<open>undefined\<close>.\<close>

definition bakProject :: MigrationContext where
  "bakProject =
     \<lparr> tree = [''.fx'' \<mapsto> Folder, ''.fx/states'' \<mapsto> Folder,
               ''.fx/states/state.dev.json.bak'' \<mapsto> File ''{}''],
       snapshot = Map.empty, backupPaths = [], modifiedPaths = [] \<rparr>"

definition bakHelpers :: StateHelpers where
  "bakHelpers =
     \<lparr> SettingsFolderName = ''teamsfx'',
       fsReadDirSync = (\<lambda>c p. [''state.dev.json.bak'']),
       readStateFile = (\<lambda>c p. case tree c p of
                                 Some (File s) \<Rightarrow> Inr (Some demoState)
                               | _ \<Rightarrow> Inr None),
       readBicepContent = (\<lambda>c. Inr ''bicep''),
       jsonObjectNamesConvertV3 = (\<lambda>obj pre bicepContent. ''ENDPOINT=https://x'') \<rparr>"


section \<open>The debug-task migration\<close>

subsection \<open>Labels for synthesized tasks\<close>

text \<open>
  \<open>generateLabel\<close> of \<open>debugV3MigrationUtils\<close> is not part of the files at hand; in
  the migration below it is a parameter (a field of \<open>DebugHelpers\<close>), so that what is
  proved of the migration holds for whatever that function returns.
\<close>

text \<open>
  Modelled from the spec: for concrete runs, \<open>specGenerateLabel\<close> is a generator after
  sections 4.4 and 8 of the specification, which ask that a synthesized label does not
  collide with an existing one and that generation appends a numeric disambiguator
  deterministically, with the suffix \<open>#2\<close> as the example. The label is the base
  itself when no task has it, and otherwise the base followed by \<open>#\<close> and the first of
  the numbers 2, 3, ... that gives a label no task has. One more candidate than there
  are existing labels is enough to find a free one.
\<close>

definition digitChar :: "nat \<Rightarrow> char" where
  "digitChar d = ''0123456789'' ! d"

function showNat :: "nat \<Rightarrow> string" where
  "showNat n = (if n < 10 then [digitChar n] else showNat (n div 10) @ [digitChar (n mod 10)])"
  by pat_completeness auto
termination
  by (relation "measure id") auto

declare showNat.simps [simp del]

definition candidateLabel :: "string \<Rightarrow> nat \<Rightarrow> string" where
  "candidateLabel base k = (if k = 0 then base else base @ ''#'' @ showNat (Suc k))"

definition specGenerateLabel :: "string \<Rightarrow> string list \<Rightarrow> string" where
  "specGenerateLabel base existingLabels =
     (case find (\<lambda>l. l \<notin> set existingLabels)
             (map (candidateLabel base) [0 ..< Suc (length existingLabels)]) of
        Some l \<Rightarrow> l
      | None \<Rightarrow> base)"

subsection \<open>The context of the debug migration and what it takes from outside\<close>

text \<open>
  \<open>DebugMigrationContext\<close>: the task list, the labels generated in this run, the
  \<open>app.yml\<close> configuration gathered so far (an object, whose sections are made when
  first written) and the migration context it wraps. The read-only parts of the context
  and the helpers of other modules are the parameters \<open>DebugHelpers\<close>: the command
  name \<open>TaskCommand.setUpBot\<close>, \<open>placeholderMapping.botEndpoint\<close>, the project id
  and the capability flags of the old project settings, \<open>LocalCrypto.encrypt\<close> (a
  result: \<open>Inr\<close> is \<open>ok\<close>), \<open>process.env\<close>, \<open>updateLocalEnv\<close> and the makers of
  the two helper tasks.
\<close>

record 'm DebugMigrationContext =
  tasks :: "json list"
  generatedLabels :: "string list"
  appYmlConfig :: json
  migrationContext :: 'm

record 'm DebugHelpers =
  setUpBotCommand :: string
  botEndpoint :: string
  projectId :: string
  includeTab :: bool
  includeBot :: bool
  includeSSO :: bool
  encrypt :: "string \<Rightarrow> string \<Rightarrow> thrown + string"
  processEnv :: "string \<rightharpoonup> string"
  updateLocalEnv :: "'m \<Rightarrow> (string \<times> string) list \<Rightarrow> 'm"
  createResourcesTask :: "string \<Rightarrow> json"
  setUpLocalProjectsTask :: "string \<Rightarrow> json"
  generateLabel :: "string \<Rightarrow> string list \<Rightarrow> string"

text \<open>Writes into an object: \<open>obj[k] = v\<close>, \<open>delete obj[k]\<close>,
  \<open>if (!obj[k]) obj[k] = {}\<close> and \<open>obj[section][k] = v\<close>.\<close>

definition setKey :: "string \<Rightarrow> json \<Rightarrow> json \<Rightarrow> json" where
  "setKey k v obj = (case obj of JObj kvs \<Rightarrow> JObj (AList.update k v kvs) | _ \<Rightarrow> obj)"

definition deleteKey :: "string \<Rightarrow> json \<Rightarrow> json" where
  "deleteKey k obj = (case obj of JObj kvs \<Rightarrow> JObj (AList.delete k kvs) | _ \<Rightarrow> obj)"

definition ensureSection :: "string \<Rightarrow> json \<Rightarrow> json" where
  "ensureSection k obj =
     (case getProp obj k of
        Some v \<Rightarrow> (if truthy v then obj else setKey k (JObj []) obj)
      | None \<Rightarrow> setKey k (JObj []) obj)"

definition setIn :: "string \<Rightarrow> string \<Rightarrow> json \<Rightarrow> json \<Rightarrow> json" where
  "setIn section k v obj =
     (case getProp obj section of
        Some s \<Rightarrow> setKey section (setKey k v s) obj
      | None \<Rightarrow> obj)"

subsection \<open>\<open>handleProvisionAndDeploy\<close>\<close>

text \<open>\<open>generatedLabels.find(value => value.startsWith(base)) || generateLabel(base,
  existingLabels)\<close>: a label found in the cache starts with the base and is not empty.\<close>

definition cachedOrGenerated ::
  "'m DebugHelpers \<Rightarrow> string \<Rightarrow> string list \<Rightarrow> string list \<Rightarrow> string" where
  "cachedOrGenerated h base generated existingLabels =
     (case find (prefix base) generated of
        Some l \<Rightarrow> l
      | None \<Rightarrow> generateLabel h base existingLabels)"

definition handleProvisionAndDeploy ::
  "'m DebugHelpers \<Rightarrow> 'm DebugMigrationContext \<Rightarrow> nat \<Rightarrow> string
     \<Rightarrow> nat \<times> 'm DebugMigrationContext" where
  "handleProvisionAndDeploy h ctx index label =
     (let tasks1 = spliceArr index 1 [] (tasks ctx);
          existingLabels = getLabels tasks1;
          generatedBefore = find (prefix ''Create resources'') (generatedLabels ctx);
          createResourcesLabel =
            cachedOrGenerated h ''Create resources'' (generatedLabels ctx) existingLabels;
          setUpLocalProjectsLabel =
            cachedOrGenerated h ''Set up local projects'' (generatedLabels ctx) existingLabels
      in if generatedBefore = None
         then
           (let generated = generatedLabels ctx @ [createResourcesLabel];
                tasks2 = spliceArr index 0 [createResourcesTask h createResourcesLabel] tasks1;
                generated' = generated @ [setUpLocalProjectsLabel];
                tasks3 = spliceArr (index + 1) 0
                           [setUpLocalProjectsTask h setUpLocalProjectsLabel] tasks2
            in (index + 2,
                ctx\<lparr> tasks := replaceInDependsOn label tasks3
                                 [createResourcesLabel, setUpLocalProjectsLabel],
                     generatedLabels := generated' \<rparr>))
         else
           (index,
            ctx\<lparr> tasks := replaceInDependsOn label tasks1
                             [createResourcesLabel, setUpLocalProjectsLabel] \<rparr>))"

subsection \<open>\<open>migrateSetUpBot\<close>\<close>

text \<open>
  \<open>/^\\$\\{env:(.*)\\}$/\<close> on the bot password: the whole string is \<open>${env:\<close>, a
  name and a closing brace, and the name holds no line terminator (the dot matches none;
  among the characters of the model these are line feed and carriage return). The match
  gives the name.
\<close>

definition lineTerminator :: "char \<Rightarrow> bool" where
  "lineTerminator c = (c = CHR 0x0A \<or> c = CHR 0x0D)"

definition matchEnvReference :: "string \<Rightarrow> string option" where
  "matchEnvReference s =
     (let rest = drop (length ''${env:'') s
      in if prefix ''${env:'' s \<and> rest \<noteq> [] \<and> last rest = CHR ''}''
         then (let name = butlast rest
               in if list_ex lineTerminator name then None else Some name)
         else None)"

text \<open>\<open>v && typeof v === "string"\<close> of a task argument: a string that is not empty.\<close>

fun nonEmptyString :: "json option \<Rightarrow> string option" where
  "nonEmptyString (Some (JStr s)) = (if s = [] then None else Some s)"
| "nonEmptyString v = None"

text \<open>The \<open>envs\<close> object that \<open>migrateSetUpBot\<close> builds from the arguments of one
  task and hands to \<open>updateLocalEnv\<close>.\<close>

definition setUpBotEnvs :: "'m DebugHelpers \<Rightarrow> json \<Rightarrow> (string \<times> string) list" where
  "setUpBotEnvs h task =
     (case getProp task ''args'' of
        Some (JObj args) \<Rightarrow>
          (let envs0 = [];
               envs1 = (case nonEmptyString (map_of args ''botId'') of
                          Some botId \<Rightarrow> AList.update ''BOT_ID'' botId envs0
                        | None \<Rightarrow> envs0);
               envs2 = (case nonEmptyString (map_of args ''botPassword'') of
                          Some arg \<Rightarrow>
                            (let matchResult = matchEnvReference arg;
                                 botPassword = (case matchResult of
                                                  Some name \<Rightarrow> processEnv h name
                                                | None \<Rightarrow> Some arg)
                             in case botPassword of
                                  None \<Rightarrow> envs1
                                | Some pw \<Rightarrow>
                                    if pw = [] then envs1
                                    else (case encrypt h (projectId h) pw of
                                            Inr secret \<Rightarrow>
                                              AList.update ''SECRET_BOT_PASSWORD'' secret envs1
                                          | Inl e \<Rightarrow> envs1))
                        | None \<Rightarrow> envs1)
           in envs2)
      | _ \<Rightarrow> [])"

text \<open>The messaging endpoint written to \<open>provision.bot\<close>: the default, or the task's
  \<open>botMessagingEndpoint\<close> when that starts with \<open>http\<close> or with a slash.\<close>

definition defaultMessagingEndpoint :: "'m DebugHelpers \<Rightarrow> string" where
  "defaultMessagingEndpoint h = ''${{'' @ botEndpoint h @ ''}}/api/messages''"

definition setUpBotMessagingEndpoint :: "'m DebugHelpers \<Rightarrow> json \<Rightarrow> string" where
  "setUpBotMessagingEndpoint h task =
     (case getProp task ''args'' of
        Some (JObj args) \<Rightarrow>
          (case nonEmptyString (map_of args ''botMessagingEndpoint'') of
             Some ep \<Rightarrow>
               if prefix ''http'' ep then ep
               else if prefix ''/'' ep then ''${{'' @ botEndpoint h @ ''}}'' @ ep
               else defaultMessagingEndpoint h
           | None \<Rightarrow> defaultMessagingEndpoint h)
      | _ \<Rightarrow> defaultMessagingEndpoint h)"

text \<open>The part of the loop body before \<open>handleProvisionAndDeploy\<close>, for a task that
  is a \<open>teamsfx\<close> task with the set-up-bot command and a string label.\<close>

definition setUpBotStep ::
  "'m DebugHelpers \<Rightarrow> json \<Rightarrow> 'm DebugMigrationContext \<Rightarrow> 'm DebugMigrationContext" where
  "setUpBotStep h task ctx =
     (let cfg1 = ensureSection ''provision'' (appYmlConfig ctx);
          cfg2 = setIn ''provision'' ''bot''
                   (JObj [(''messagingEndpoint'', JStr (defaultMessagingEndpoint h))]) cfg1;
          cfg3 = ensureSection ''deploy'' cfg2;
          cfg4 = setIn ''deploy'' ''bot'' (JBool True) cfg3;
          envs = setUpBotEnvs h task;
          cfg5 = setIn ''provision'' ''bot''
                   (JObj [(''messagingEndpoint'', JStr (setUpBotMessagingEndpoint h task))]) cfg4
      in ctx\<lparr> appYmlConfig := cfg5,
              migrationContext := updateLocalEnv h (migrationContext ctx) envs \<rparr>)"

definition isSetUpBotTask :: "'m DebugHelpers \<Rightarrow> json \<Rightarrow> bool" where
  "isSetUpBotTask h task =
     (isCommentObject task
      \<and> getProp task ''type'' = Some (JStr ''teamsfx'')
      \<and> getProp task ''command'' = Some (JStr (setUpBotCommand h)))"

lemma handleProvisionAndDeploy_measure:
  assumes "handleProvisionAndDeploy h ctx index label = (index', ctx')"
    and "index < length (tasks ctx)"
  shows "length (tasks ctx') - index' < length (tasks ctx) - index"
  using assms
  by (auto simp: handleProvisionAndDeploy_def Let_def spliceArr_def replaceInDependsOn_def
      split: if_splits)

lemma setUpBotStep_tasks: "tasks (setUpBotStep h task ctx) = tasks ctx"
  by (simp add: setUpBotStep_def Let_def)

text \<open>The \<open>while\<close> loop of \<open>migrateSetUpBot\<close>, from a given index.\<close>

function migrateSetUpBotFrom ::
  "'m DebugHelpers \<Rightarrow> nat \<Rightarrow> 'm DebugMigrationContext \<Rightarrow> 'm DebugMigrationContext" where
  "migrateSetUpBotFrom h index ctx =
     (if index < length (tasks ctx) then
        (let task = tasks ctx ! index
         in if \<not> isSetUpBotTask h task then migrateSetUpBotFrom h (index + 1) ctx
            else (case getProp task ''label'' of
                    Some (JStr label) \<Rightarrow>
                      (case handleProvisionAndDeploy h (setUpBotStep h task ctx) index label of
                         (index', ctx') \<Rightarrow> migrateSetUpBotFrom h index' ctx')
                  | _ \<Rightarrow> migrateSetUpBotFrom h (index + 1) ctx))
      else ctx)"
  by pat_completeness auto
termination
proof (relation "measure (\<lambda>(h, index, ctx). length (tasks ctx) - index)")
  show "wf (measure (\<lambda>(h :: 'm DebugHelpers, index, ctx :: 'm DebugMigrationContext).
          length (tasks ctx) - index))"
    by simp
next
  fix h :: "'m DebugHelpers" and index and ctx :: "'m DebugMigrationContext"
    and task x2 label x y
  assume idx: "index < length (tasks ctx)"
    and eq: "(x, y) = handleProvisionAndDeploy h (setUpBotStep h task ctx) index label"
  from eq have "handleProvisionAndDeploy h (setUpBotStep h task ctx) index label = (x, y)"
    by simp
  from handleProvisionAndDeploy_measure [OF this] idx
  have "length (tasks y) - x < length (tasks ctx) - index"
    by (simp add: setUpBotStep_tasks)
  then show "((h, x, y), h, index, ctx)
               \<in> measure (\<lambda>(h, index, ctx). length (tasks ctx) - index)"
    by simp
qed auto

definition migrateSetUpBot ::
  "'m DebugHelpers \<Rightarrow> 'm DebugMigrationContext \<Rightarrow> 'm DebugMigrationContext" where
  "migrateSetUpBot h ctx = migrateSetUpBotFrom h 0 ctx"

declare migrateSetUpBotFrom.simps [simp del]

text \<open>A task that the loop of \<open>migrateSetUpBot\<close> acts on: a set-up-bot task with a
  string label.\<close>

definition botTaskWithLabel :: "'m DebugHelpers \<Rightarrow> json \<Rightarrow> bool" where
  "botTaskWithLabel h t = (isSetUpBotTask h t \<and> (\<exists>l. getProp t ''label'' = Some (JStr l)))"

subsection \<open>\<open>migratePreDebugCheck\<close>\<close>

text \<open>\<open>String.prototype.includes\<close>.\<close>

fun includesStr :: "string \<Rightarrow> string \<Rightarrow> bool" where
  "includesStr sub [] = (sub = [])"
| "includesStr sub (c # cs) = (prefix sub (c # cs) \<or> includesStr sub cs)"

definition shellTaskWith :: "string \<Rightarrow> json \<Rightarrow> bool" where
  "shellTaskWith marker task =
     (isCommentObject task
      \<and> getProp task ''type'' = Some (JStr ''shell'')
      \<and> (case getProp task ''command'' of
            Some (JStr command) \<Rightarrow> includesStr marker command
          | _ \<Rightarrow> False))"

definition isPreDebugCheckTask :: "json \<Rightarrow> bool" where
  "isPreDebugCheckTask task = shellTaskWith ''${command:fx-extension.pre-debug-check}'' task"

text \<open>What the matching branch gathers into \<open>appYmlConfig\<close>; \<open>tasks\<close> is searched
  for a task that validates the local prerequisites.\<close>

definition preDebugCheckConfig :: "'m DebugHelpers \<Rightarrow> json list \<Rightarrow> json \<Rightarrow> json" where
  "preDebugCheckConfig h ts cfg =
     (let c1 = ensureSection ''registerApp'' cfg;
          c2 = (if includeSSO h then setIn ''registerApp'' ''aad'' (JBool True) c1 else c1);
          c3 = setIn ''registerApp'' ''teamsApp'' (JBool True) c2;
          c4 = (if includeBot h
                then setIn ''provision'' ''bot''
                       (JObj [(''messagingEndpoint'', JStr (defaultMessagingEndpoint h))])
                       (ensureSection ''provision'' c3)
                else c3);
          c5 = ensureSection ''configureApp'' c4;
          c6 = (if includeTab h
                then setIn ''configureApp'' ''tab''
                       (JObj [(''domain'', JStr ''localhost:53000''),
                              (''endpoint'', JStr ''https://localhost:53000'')]) c5
                else c5);
          c7 = (if includeSSO h then setIn ''configureApp'' ''aad'' (JBool True) c6 else c6);
          c8 = (case getProp c7 ''configureApp'' of
                  Some s \<Rightarrow> setKey ''configureApp'' (ensureSection ''teamsApp'' s) c7
                | None \<Rightarrow> c7)
      in if find (shellTaskWith ''${command:fx-extension.validate-local-prerequisites}'') ts
            \<noteq> None
         then
           (let d1 = ensureSection ''deploy'' c8;
                d2 = (if includeTab h
                      then setIn ''deploy'' ''tab'' (JObj [(''port'', JNum 53000)]) d1 else d1);
                d3 = (if includeBot h then setIn ''deploy'' ''bot'' (JBool True) d2 else d2);
                d4 = (if includeSSO h then setIn ''deploy'' ''sso'' (JBool True) d3 else d3)
            in d4)
         else c8)"

text \<open>The loop stops at the first task that matches (\<open>break\<close>), so it is a search for
  that task. The task object is changed in place; the two helper tasks are spliced in
  after it. The labels come from \<open>generateLabel\<close> on the labels of the whole list;
  \<open>generatedLabels\<close> is neither read nor written.\<close>

definition migratePreDebugCheck ::
  "'m DebugHelpers \<Rightarrow> 'm DebugMigrationContext \<Rightarrow> 'm DebugMigrationContext" where
  "migratePreDebugCheck h ctx =
     (case findIndex isPreDebugCheckTask (tasks ctx) of
        None \<Rightarrow> ctx
      | Some index \<Rightarrow>
          (let task = tasks ctx ! index;
               cfg = preDebugCheckConfig h (tasks ctx) (appYmlConfig ctx);
               existingLabels = getLabels (tasks ctx);
               createResourcesLabel = generateLabel h ''Create resources'' existingLabels;
               setUpLocalProjectsLabel = generateLabel h ''Set up local projects'' existingLabels;
               task1 = setKey ''dependsOn''
                         (JArr [JStr createResourcesLabel, JStr setUpLocalProjectsLabel]) task;
               task2 = setKey ''dependsOrder'' (JStr ''sequence'') task1;
               tasks1 = spliceArr (index + 1) 0 [createResourcesTask h createResourcesLabel]
                          (tasks ctx);
               tasks2 = spliceArr (index + 2) 0
                          [setUpLocalProjectsTask h setUpLocalProjectsLabel] tasks1;
               task3 = deleteKey ''presentation'' (deleteKey ''command'' (deleteKey ''type'' task2))
           in ctx\<lparr> tasks := tasks2[index := task3], appYmlConfig := cfg \<rparr>))"

subsection \<open>A run on a concrete task list\<close>

text \<open>Helpers for concrete runs: encryption that tags the plain text, an environment
  in which only \<open>HOME\<close> is set, an \<open>updateLocalEnv\<close> that records the maps it is
  given, helper tasks that carry the label they are made for, and the label generator
  \<open>specGenerateLabel\<close>.\<close>

definition demoDebug :: "(string \<times> string) list list DebugHelpers" where
  "demoDebug =
     \<lparr> setUpBotCommand = ''debug-set-up-bot'',
       botEndpoint = ''BOT_ENDPOINT'',
       projectId = ''00000000-0000-0000-0000-000000000000'',
       includeTab = False, includeBot = True, includeSSO = False,
       encrypt = (\<lambda>pid plain. Inr (''crypto_'' @ plain)),
       processEnv = [''HOME'' \<mapsto> ''/root''],
       updateLocalEnv = (\<lambda>m envs. m @ [envs]),
       createResourcesTask = (\<lambda>l. JObj [(''label'', JStr l), (''type'', JStr ''teamsfx''),
                                      (''command'', JStr ''provision'')]),
       setUpLocalProjectsTask = (\<lambda>l. JObj [(''label'', JStr l), (''type'', JStr ''teamsfx''),
                                         (''command'', JStr ''deploy'')]),
       generateLabel = specGenerateLabel \<rparr>"

definition setUpBotTask :: "string \<Rightarrow> json" where
  "setUpBotTask botPassword =
     JObj [(''label'', JStr ''Set up bot''), (''type'', JStr ''teamsfx''),
           (''command'', JStr ''debug-set-up-bot''),
           (''args'', JObj [(''botId'', JStr ''bot-1''), (''botPassword'', JStr botPassword)])]"

definition preDebugCheckTask :: json where
  "preDebugCheckTask =
     JObj [(''label'', JStr ''Pre Debug Check''), (''type'', JStr ''shell''),
           (''command'', JStr ''echo ${command:fx-extension.pre-debug-check}''),
           (''dependsOn'', JStr ''Set up bot'')]"

definition debugContext :: "json list \<Rightarrow> (string \<times> string) list list DebugMigrationContext" where
  "debugContext ts =
     \<lparr> tasks = ts, generatedLabels = [], appYmlConfig = JObj [], migrationContext = [] \<rparr>"

text \<open>The pre-debug-check task of the example once the set-up-bot task before it has
  been replaced by the two helper tasks.\<close>

definition taskPreDebugAfter :: json where
  "taskPreDebugAfter =
     JObj [(''label'', JStr ''Pre Debug Check''), (''type'', JStr ''shell''),
           (''command'', JStr ''echo ${command:fx-extension.pre-debug-check}''),
           (''dependsOn'', JArr [JStr ''Create resources'', JStr ''Set up local projects''])]"

section \<open>Theorems\<close>

lemma traced_step:
  "run m c = (c1, r1) \<Longrightarrow> traced run m (c, tr) = ((c1, tr @ [m]), r1)"
  by (simp add: traced_def)

lemma runMigrations_traced_prefix:
  "runMigrations (traced run) ms (c, tr) = ((c', tr'), r) \<Longrightarrow>
     \<exists>k \<le> length ms. tr' = tr @ take k ms \<and> (r = None \<longrightarrow> k = length ms)"
proof (induction ms arbitrary: c tr)
  case Nil
  then show ?case by simp
next
  case (Cons m ms)
  obtain c1 r1 where step: "run m c = (c1, r1)" by (cases "run m c")
  have tstep: "traced run m (c, tr) = ((c1, tr @ [m]), r1)"
    using step by (rule traced_step)
  show ?case
  proof (cases r1)
    case None
    with Cons.prems tstep
    have "runMigrations (traced run) ms (c1, tr @ [m]) = ((c', tr'), r)"
      by simp
    from Cons.IH [OF this] obtain k where
      k: "k \<le> length ms" "tr' = (tr @ [m]) @ take k ms" "r = None \<longrightarrow> k = length ms"
      by blast
    then have "Suc k \<le> length (m # ms) \<and> tr' = tr @ take (Suc k) (m # ms)
               \<and> (r = None \<longrightarrow> Suc k = length (m # ms))"
      by simp
    then show ?thesis by blast
  next
    case (Some e)
    with Cons.prems tstep have "tr' = tr @ [m]" "r = Some e"
      by simp_all
    then have "Suc 0 \<le> length (m # ms) \<and> tr' = tr @ take (Suc 0) (m # ms)
               \<and> (r = None \<longrightarrow> Suc 0 = length (m # ms))"
      by simp
    then show ?thesis by blast
  qed
qed

lemma runMigrations_traced_same:
  "runMigrations (traced run) ms (c, tr) = ((c', tr'), r) \<Longrightarrow> runMigrations run ms c = (c', r)"
proof (induction ms arbitrary: c tr)
  case Nil
  then show ?case by simp
next
  case (Cons m ms)
  obtain c1 r1 where step: "run m c = (c1, r1)" by (cases "run m c")
  have tstep: "traced run m (c, tr) = ((c1, tr @ [m]), r1)"
    using step by (rule traced_step)
  show ?case
  proof (cases r1)
    case None
    with Cons.prems tstep
    have "runMigrations (traced run) ms (c1, tr @ [m]) = ((c', tr'), r)"
      by simp
    from Cons.IH [OF this] show ?thesis using step None by simp
  next
    case (Some e)
    with Cons.prems tstep have "c' = c1" "r = Some e" by simp_all
    with step Some show ?thesis by simp
  qed
qed

lemma runMigrations_traced_chain:
  "runMigrations (traced run) ms (c, tr0) = ((c', tr), r) \<Longrightarrow>
     \<exists>k cs. k \<le> length ms \<and> length cs = Suc k \<and> cs ! 0 = c
       \<and> (\<forall>i<k. run (ms ! i) (cs ! i) = (cs ! Suc i, None))
       \<and> (case r of
             None \<Rightarrow> k = length ms \<and> c' = cs ! k \<and> tr = tr0 @ ms
           | Some e \<Rightarrow> k < length ms \<and> run (ms ! k) (cs ! k) = (c', Some e)
                        \<and> tr = tr0 @ take (Suc k) ms)"
proof (induction ms arbitrary: c tr0)
  case Nil
  then have "r = None" "c' = c" "tr = tr0" by simp_all
  then have "(0::nat) \<le> length ([]::Migration list) \<and> length [c] = Suc 0 \<and> [c] ! 0 = c
       \<and> (\<forall>i<0. run ([] ! i) ([c] ! i) = ([c] ! Suc i, None))
       \<and> (case r of
             None \<Rightarrow> 0 = length ([]::Migration list) \<and> c' = [c] ! 0 \<and> tr = tr0 @ []
           | Some e \<Rightarrow> 0 < length ([]::Migration list) \<and> run ([] ! 0) ([c] ! 0) = (c', Some e)
                        \<and> tr = tr0 @ take (Suc 0) [])"
    by simp
  then show ?case by blast
next
  case (Cons m ms)
  obtain c1 r1 where step: "run m c = (c1, r1)" by (cases "run m c")
  have tstep: "traced run m (c, tr0) = ((c1, tr0 @ [m]), r1)"
    using step by (rule traced_step)
  show ?case
  proof (cases r1)
    case None
    with Cons.prems tstep
    have "runMigrations (traced run) ms (c1, tr0 @ [m]) = ((c', tr), r)"
      by simp
    from Cons.IH [OF this] obtain k cs where
      k: "k \<le> length ms" and len: "length cs = Suc k" and hd0: "cs ! 0 = c1"
      and chain: "\<forall>i<k. run (ms ! i) (cs ! i) = (cs ! Suc i, None)"
      and fin: "case r of
             None \<Rightarrow> k = length ms \<and> c' = cs ! k \<and> tr = (tr0 @ [m]) @ ms
           | Some e \<Rightarrow> k < length ms \<and> run (ms ! k) (cs ! k) = (c', Some e)
                        \<and> tr = (tr0 @ [m]) @ take (Suc k) ms"
      by blast
    have chain': "\<forall>i<Suc k. run ((m # ms) ! i) ((c # cs) ! i) = ((c # cs) ! Suc i, None)"
    proof (intro allI impI)
      fix i assume i: "i < Suc k"
      show "run ((m # ms) ! i) ((c # cs) ! i) = ((c # cs) ! Suc i, None)"
      proof (cases i)
        case 0
        with step None hd0 show ?thesis by simp
      next
        case (Suc j)
        with i chain show ?thesis by simp
      qed
    qed
    have fin': "case r of
             None \<Rightarrow> Suc k = length (m # ms) \<and> c' = (c # cs) ! Suc k \<and> tr = tr0 @ (m # ms)
           | Some e \<Rightarrow> Suc k < length (m # ms)
                        \<and> run ((m # ms) ! Suc k) ((c # cs) ! Suc k) = (c', Some e)
                        \<and> tr = tr0 @ take (Suc (Suc k)) (m # ms)"
      using fin by (cases r) simp_all
    have "Suc k \<le> length (m # ms) \<and> length (c # cs) = Suc (Suc k) \<and> (c # cs) ! 0 = c"
      using k len by simp
    with chain' fin' show ?thesis by blast
  next
    case (Some e)
    with Cons.prems tstep have res: "c' = c1" "tr = tr0 @ [m]" "r = Some e"
      by simp_all
    have "(0::nat) \<le> length (m # ms) \<and> length [c] = Suc 0 \<and> [c] ! 0 = c
       \<and> (\<forall>i<0. run ((m # ms) ! i) ([c] ! i) = ([c] ! Suc i, None))
       \<and> (case r of
             None \<Rightarrow> 0 = length (m # ms) \<and> c' = [c] ! 0 \<and> tr = tr0 @ (m # ms)
           | Some e \<Rightarrow> 0 < length (m # ms) \<and> run ((m # ms) ! 0) ([c] ! 0) = (c', Some e)
                        \<and> tr = tr0 @ take (Suc 0) (m # ms))"
      using res step Some by simp
    then show ?thesis by blast
  qed
qed

subsection \<open>C3: six steps, in the fixed order, one after the other\<close>

text \<open>
  Claim C3. The pipeline is the list of exactly six steps pre-migration backup, settings
  generation, app.yml generation, manifest placeholder rewrite, state conversion and
  launch-config rewrite. Whatever the steps do, a run of \<open>migrate\<close> from a context
  \<open>c\<close> is a chain of contexts \<open>cs\<close> that starts with \<open>c\<close>: the first \<open>k\<close> steps
  of the list are run in the order of the list, step \<open>i\<close> on the context that step
  \<open>i - 1\<close> left, and each of them returns without throwing. When the run returns
  normally, \<open>k\<close> is six, the run ends in the context that the sixth step left, and
  the steps started are the six of the list, in that order. When the run throws \<open>e\<close>,
  step \<open>k\<close> is the one that threw \<open>e\<close>, on the context that the steps before it
  produced; the run ends in the context as that step left it, and the steps started are
  exactly the steps up to and including it: no step after the one that threw is started.
  The instrumented run computes the same context and outcome as the plain one.
\<close>

theorem migrate_runs_six_steps_in_order:
  assumes "migrate (traced run) (c, []) = ((c', tr), r)"
  shows "subMigrations = [PreMigration, GenerateSettingsJson, GenerateAppYml,
                          ReplacePlaceholderForManifests, StatesMigration, UpdateLaunchJson]
         \<and> length subMigrations = 6 \<and> distinct subMigrations
         \<and> migrate run c = (c', r)
         \<and> (\<exists>k cs. k \<le> 6 \<and> length cs = Suc k \<and> cs ! 0 = c
               \<and> (\<forall>i<k. run (subMigrations ! i) (cs ! i) = (cs ! Suc i, None))
               \<and> (case r of
                     None \<Rightarrow> k = 6 \<and> c' = cs ! k \<and> tr = subMigrations
                   | Some e \<Rightarrow> k < 6 \<and> run (subMigrations ! k) (cs ! k) = (c', Some e)
                                \<and> tr = take (Suc k) subMigrations))"
proof -
  from assms have run: "runMigrations (traced run) subMigrations (c, []) = ((c', tr), r)"
    by (simp add: migrate_def)
  have len: "length subMigrations = 6" and dist: "distinct subMigrations"
    and list: "subMigrations = [PreMigration, GenerateSettingsJson, GenerateAppYml,
                          ReplacePlaceholderForManifests, StatesMigration, UpdateLaunchJson]"
    by (simp_all add: subMigrations_def)
  have same: "migrate run c = (c', r)"
    using runMigrations_traced_same [OF run] by (simp add: migrate_def)
  from runMigrations_traced_chain [OF run] obtain k cs where
    k: "k \<le> length subMigrations" "length cs = Suc k" "cs ! 0 = c"
       "\<forall>i<k. run (subMigrations ! i) (cs ! i) = (cs ! Suc i, None)"
    and fin: "case r of
             None \<Rightarrow> k = length subMigrations \<and> c' = cs ! k \<and> tr = [] @ subMigrations
           | Some e \<Rightarrow> k < length subMigrations
                        \<and> run (subMigrations ! k) (cs ! k) = (c', Some e)
                        \<and> tr = [] @ take (Suc k) subMigrations"
    by blast
  have fin': "case r of
                None \<Rightarrow> k = 6 \<and> c' = cs ! k \<and> tr = subMigrations
              | Some e \<Rightarrow> k < 6 \<and> run (subMigrations ! k) (cs ! k) = (c', Some e)
                           \<and> tr = take (Suc k) subMigrations"
    using fin len by (cases r) simp_all
  have "k \<le> 6" using k(1) len by simp
  with k(2-4) fin' have
    "\<exists>k cs. k \<le> 6 \<and> length cs = Suc k \<and> cs ! 0 = c
               \<and> (\<forall>i<k. run (subMigrations ! i) (cs ! i) = (cs ! Suc i, None))
               \<and> (case r of
                     None \<Rightarrow> k = 6 \<and> c' = cs ! k \<and> tr = subMigrations
                   | Some e \<Rightarrow> k < 6 \<and> run (subMigrations ! k) (cs ! k) = (c', Some e)
                                \<and> tr = take (Suc k) subMigrations)"
    by blast
  with list len dist same show ?thesis by blast
qed

lemma migrate_appYmlThrows:
  "migrate (traced appYmlThrows) (0, []) =
     ((2, [PreMigration, GenerateSettingsJson, GenerateAppYml]),
      Some (OtherError ''ENOENT: provision.bicep''))"
  by (simp add: migrate_def subMigrations_def traced_def appYmlThrows_def)

theorem migrate_runs_six_steps_in_order_witness:
  "migrate (traced appYmlThrows) (0, []) =
     ((2, [PreMigration, GenerateSettingsJson, GenerateAppYml]),
      Some (OtherError ''ENOENT: provision.bicep''))
   \<and> migrate appYmlThrows 0 = (2, Some (OtherError ''ENOENT: provision.bicep''))"
  using migrate_runs_six_steps_in_order [OF migrate_appYmlThrows] migrate_appYmlThrows
  by simp

subsection \<open>C1: rollback and the rethrown value\<close>

lemma rollbackMigration_completes:
  assumes "cleanModifiedPaths ops c = (c1, None)"
    and "restoreBackup ops c1 = (c2, None)"
    and "cleanTeamsfx ops c2 = (c3, r)"
  shows "rollbackMigration ops c = (c3, r)"
  using assms by (simp add: rollbackMigration_def)

lemma rollbackMigration_first_throws:
  assumes "cleanModifiedPaths ops c = (c1, Some t)"
  shows "rollbackMigration ops c = (c1, Some t)"
  using assms by (simp add: rollbackMigration_def)

lemma rollbackMigration_second_throws:
  assumes "cleanModifiedPaths ops c = (c1, None)" and "restoreBackup ops c1 = (c2, Some t)"
  shows "rollbackMigration ops c = (c2, Some t)"
  using assms by (simp add: rollbackMigration_def)

lemma classified_cases:
  "classified (UserError src nm msg) = Inr (UserError src nm msg, UserError src nm msg)"
  "classified (SystemError src nm msg) = Inr (SystemError src nm msg, SystemError src nm msg)"
  "classified (OtherError msg)
     = Inr (OtherError msg, SystemError coreSource unhandledError msg)"
  "classified (NonError s) = Inr (OtherError s, SystemError coreSource unhandledError s)"
  "classified Nullish = Inl typeErrorToString"
  by (simp_all add: classified_def coerced_def)

lemma wrapRunMigration_rolled_back:
  assumes "exec c = (c', Some e)" and "classified e = Inr (error', fxError)"
    and "rollbackMigration ops c' = (c'', None)"
  shows "wrapRunMigration ops exec c =
           (c'', [ProjectMigratorMigrateStartV3, ProjectMigratorV3Error fxError], Some error')"
  using assms by (simp add: wrapRunMigration_def)

text \<open>A rollback phase that throws: the error of the phase, not the one of the
  pipeline, reaches the caller. A pipeline that throws \<open>undefined\<close> or \<open>null\<close>: the
  catch block throws before the error event is sent and before any rollback phase.\<close>

lemma wrapRunMigration_rollback_throws:
  assumes "exec c = (c', Some e)" and "classified e = Inr (error', fxError)"
    and "rollbackMigration ops c' = (c'', Some t)"
  shows "wrapRunMigration ops exec c =
           (c'', [ProjectMigratorMigrateStartV3, ProjectMigratorV3Error fxError], Some t)"
  using assms by (simp add: wrapRunMigration_def)

lemma wrapRunMigration_nullish:
  assumes "exec c = (c', Some Nullish)"
  shows "wrapRunMigration ops exec c
           = (c', [ProjectMigratorMigrateStartV3], Some typeErrorToString)"
  using assms by (simp add: wrapRunMigration_def classified_cases)

text \<open>
  Claim C1, as the code has it. When the pipeline throws a value other than
  \<open>undefined\<close> or \<open>null\<close> and each of the three rollback phases returns without
  throwing, \<open>wrapRunMigration\<close> runs \<open>cleanModifiedPaths\<close> on the context as the
  failed run left it, then \<open>restoreBackup\<close> on the context that gave, then
  \<open>cleanTeamsfx\<close> on the context that gave, and then throws to its caller. The value
  thrown is the original one whenever that is an \<open>Error\<close> (a \<open>UserError\<close>, a
  \<open>SystemError\<close> or any other), and a plain \<open>Error\<close> made of its string form
  otherwise. The generic \<open>SystemError\<close> named \<open>UnhandledError\<close> that carries the
  original message is built for the telemetry error event only; already classified
  errors go to telemetry unchanged.
\<close>

theorem wrapRunMigration_rolls_back_and_rethrows:
  assumes "exec c = (c', Some e)"
    and "cleanModifiedPaths ops c' = (c1, None)"
    and "restoreBackup ops c1 = (c2, None)"
    and "cleanTeamsfx ops c2 = (c3, None)"
  shows "(instanceofUserError e \<or> instanceofSystemError e \<longrightarrow>
            wrapRunMigration ops exec c =
              (c3, [ProjectMigratorMigrateStartV3, ProjectMigratorV3Error e], Some e))
         \<and> (\<forall>msg. e = OtherError msg \<longrightarrow>
              wrapRunMigration ops exec c =
                (c3, [ProjectMigratorMigrateStartV3,
                      ProjectMigratorV3Error (SystemError coreSource unhandledError msg)],
                 Some (OtherError msg)))
         \<and> (\<forall>s. e = NonError s \<longrightarrow>
              wrapRunMigration ops exec c =
                (c3, [ProjectMigratorMigrateStartV3,
                      ProjectMigratorV3Error (SystemError coreSource unhandledError s)],
                 Some (OtherError s)))
         \<and> (e \<noteq> Nullish \<longrightarrow>
              instanceofUserError e \<or> instanceofSystemError e
              \<or> (\<exists>msg. e = OtherError msg) \<or> (\<exists>s. e = NonError s))"
proof -
  have rb: "rollbackMigration ops c' = (c3, None)"
    using assms(2-4) by (rule rollbackMigration_completes)
  have wrap: "wrapRunMigration ops exec c =
           (c3, [ProjectMigratorMigrateStartV3, ProjectMigratorV3Error fxError], Some error')"
    if "classified e = Inr (error', fxError)" for error' fxError
    using assms(1) that rb by (rule wrapRunMigration_rolled_back)
  show ?thesis
  proof (cases e)
    case (UserError src nm msg)
    then have "classified e = Inr (e, e)" by (simp add: classified_cases)
    from wrap [OF this] UserError show ?thesis by simp
  next
    case (SystemError src nm msg)
    then have "classified e = Inr (e, e)" by (simp add: classified_cases)
    from wrap [OF this] SystemError show ?thesis by simp
  next
    case (OtherError msg)
    then have "classified e = Inr (OtherError msg, SystemError coreSource unhandledError msg)"
      by (simp add: classified_cases)
    from wrap [OF this] OtherError show ?thesis by simp
  next
    case (NonError s)
    then have "classified e = Inr (OtherError s, SystemError coreSource unhandledError s)"
      by (simp add: classified_cases)
    from wrap [OF this] NonError show ?thesis by simp
  next
    case Nullish
    then show ?thesis by simp
  qed
qed

theorem wrapRunMigration_rolls_back_and_rethrows_witness:
  "throwsBoom [] = ([''exec''], Some (OtherError ''boom''))
   \<and> cleanModifiedPaths loggingOps [''exec''] = ([''exec'', ''cleanModifiedPaths''], None)
   \<and> restoreBackup loggingOps [''exec'', ''cleanModifiedPaths'']
       = ([''exec'', ''cleanModifiedPaths'', ''restoreBackup''], None)
   \<and> cleanTeamsfx loggingOps [''exec'', ''cleanModifiedPaths'', ''restoreBackup'']
       = ([''exec'', ''cleanModifiedPaths'', ''restoreBackup'', ''cleanTeamsfx''], None)
   \<and> wrapRunMigration loggingOps throwsBoom [] =
       ([''exec'', ''cleanModifiedPaths'', ''restoreBackup'', ''cleanTeamsfx''],
        [ProjectMigratorMigrateStartV3,
         ProjectMigratorV3Error (SystemError coreSource unhandledError ''boom'')],
        Some (OtherError ''boom''))"
proof -
  have h: "throwsBoom [] = ([''exec''], Some (OtherError ''boom''))"
    by (simp add: throwsBoom_def)
  have r1: "cleanModifiedPaths loggingOps [''exec''] = ([''exec'', ''cleanModifiedPaths''], None)"
    by (simp add: loggingOps_def)
  have r2: "restoreBackup loggingOps [''exec'', ''cleanModifiedPaths'']
       = ([''exec'', ''cleanModifiedPaths'', ''restoreBackup''], None)"
    by (simp add: loggingOps_def)
  have r3: "cleanTeamsfx loggingOps [''exec'', ''cleanModifiedPaths'', ''restoreBackup'']
       = ([''exec'', ''cleanModifiedPaths'', ''restoreBackup'', ''cleanTeamsfx''], None)"
    by (simp add: loggingOps_def)
  from wrapRunMigration_rolls_back_and_rethrows
         [where exec = throwsBoom and c = "[]" and ops = loggingOps, OF h r1 r2 r3] h r1 r2 r3
  show ?thesis
    by simp
qed

text \<open>The claim as written fails. An unclassified \<open>Error\<close> thrown by the pipeline
  reaches the caller as it was thrown, not wrapped into the generic \<open>SystemError\<close>.
  When \<open>cleanModifiedPaths\<close> throws, neither \<open>restoreBackup\<close> nor \<open>cleanTeamsfx\<close>
  is called and the error of \<open>cleanModifiedPaths\<close> is the one that reaches the caller.
  When the pipeline throws \<open>undefined\<close>, no rollback phase is called at all.\<close>

theorem wrapRunMigration_rethrows_unwrapped:
  "snd (snd (wrapRunMigration loggingOps throwsBoom [])) = Some (OtherError ''boom'')
   \<and> snd (snd (wrapRunMigration loggingOps throwsBoom []))
       \<noteq> Some (SystemError coreSource unhandledError ''boom'')
   \<and> wrapRunMigration failingCleanOps throwsBoom [] =
       ([''exec'', ''cleanModifiedPaths''],
        [ProjectMigratorMigrateStartV3,
         ProjectMigratorV3Error (SystemError coreSource unhandledError ''boom'')],
        Some (OtherError ''EPERM: operation not permitted''))
   \<and> wrapRunMigration loggingOps throwsUndefined [] =
       ([''exec''], [ProjectMigratorMigrateStartV3], Some typeErrorToString)"
  by (simp add: wrapRunMigration_def rollbackMigration_def throwsBoom_def throwsUndefined_def
      classified_cases loggingOps_def failingCleanOps_def)

subsection \<open>C9: the host detected from an imported manifest\<close>

text \<open>Where the lookup of the first scope does not throw, that is for a manifest that
  loads and whose \<open>extensions\<close> array is absent or starts with an extension object,
  \<open>getHost\<close> returns \<open>"Outlook"\<close> whatever the first scope of the first extension's
  requirements is (\<open>"mail"\<close>, any other string, or none): the one case of the switch
  assigns the value \<open>host\<close> already has.\<close>

lemma getHost_Outlook_when_lookup_returns:
  assumes "loadFromPath p = Inr m"
    and "extensions m = None \<or> (\<exists>ext rest. extensions m = Some (Some ext # rest))"
  shows "getHost loadFromPath p = Inr ''Outlook''"
  using assms
  by (auto simp: getHost_def firstScope_def Let_def split: option.splits list.splits)

lemma getHost_any_scope:
  "getHost (loadedManifest (manifestWithScope sc)) p = Inr ''Outlook''"
  by (simp add: getHost_def firstScope_def loadedManifest_def manifestWithScope_def)

text \<open>
  Claim C9 at the input where the code departs from it. The claim has \<open>getHost\<close>
  return \<open>"Outlook"\<close> for every add-in manifest. For a manifest that loads and whose
  \<open>extensions\<close> array is empty, \<open>getHost\<close> returns no host: the lookup
  \<open>extensions?.[0].requirements\<close> throws a \<open>TypeError\<close>, and so it does when the
  first element of the array is \<open>null\<close>. The same lookup on a manifest without the
  \<open>extensions\<close> field, and on a manifest whose first extension has the scope
  \<open>"workbook"\<close>, gives \<open>"Outlook"\<close>.
\<close>

theorem getHost_empty_extensions_throws:
  "getHost (loadedManifest manifestNoExtension) ''manifest.json'' = Inl typeErrorUndefined
   \<and> getHost (loadedManifest manifestNoExtension) ''manifest.json'' \<noteq> Inr ''Outlook''
   \<and> getHost (loadedManifest manifestNullExtension) ''manifest.json'' = Inl typeErrorNull
   \<and> getHost (loadedManifest manifestNoExtensions) ''manifest.json'' = Inr ''Outlook''
   \<and> getHost (loadedManifest (manifestWithScope ''workbook'')) ''manifest.json''
       = Inr ''Outlook''"
  by (simp add: getHost_def firstScope_def loadedManifest_def manifestNoExtension_def
      manifestNullExtension_def manifestNoExtensions_def manifestWithScope_def)

subsection \<open>Relabelling of \<open>dependsOn\<close>\<close>

lemma replaceInTask_string:
  assumes "map_of kvs ''dependsOn'' = Some (JStr label)" and "label \<noteq> []"
    and "replacements \<noteq> []"
  shows "dependsOnOf (replaceInTask label replacements (JObj kvs))
           = Some (JArr (map JStr replacements))"
  using assms by (simp add: replaceInTask_def dependsOnOf_def update_conv')

lemma replaceInTask_string_none:
  assumes "map_of kvs ''dependsOn'' = Some (JStr label)" and "label \<noteq> []"
  shows "dependsOnOf (replaceInTask label [] (JObj kvs)) = None"
  using assms by (simp add: replaceInTask_def dependsOnOf_def delete_conv')

lemma replaceInTask_array:
  assumes "map_of kvs ''dependsOn'' = Some (JArr ds)"
  shows "dependsOnOf (replaceInTask label replacements (JObj kvs))
           = Some (JArr (replaceInArray label replacements ds))"
  using assms by (simp add: replaceInTask_def dependsOnOf_def update_conv')

lemma replaceInArray_A_C:
  "replaceInArray ''A'' [] [JStr ''A'', JStr ''C''] = [JStr ''C'']"
  by (simp add: replaceInArray_def spliceArr_def)

lemma findIndex_None_iff: "findIndex (\<lambda>v. v = x) xs = None \<longleftrightarrow> x \<notin> set xs"
  by (induction xs) auto

lemma findIndex_absent: "x \<notin> set xs \<Longrightarrow> findIndex (\<lambda>v. v = x) xs = None"
  by (simp add: findIndex_None_iff)

lemma splice_delete_is_remove1:
  "findIndex (\<lambda>v. v = x) xs = Some i \<Longrightarrow> spliceArr i (Suc 0) [] xs = remove1 x xs"
proof (induction xs arbitrary: i)
  case Nil
  then show ?case by simp
next
  case (Cons y ys)
  show ?case
  proof (cases "y = x")
    case True
    with Cons.prems show ?thesis by (simp add: spliceArr_def)
  next
    case False
    with Cons.prems obtain j where j: "findIndex (\<lambda>v. v = x) ys = Some j" "i = Suc j"
      by auto
    from Cons.IH [OF j(1)] False j(2) show ?thesis by (simp add: spliceArr_def)
  qed
qed

lemma set_splice_insert:
  "findIndex (\<lambda>v. v = x) xs = Some i \<Longrightarrow>
     set (spliceArr i (Suc 0) ys xs) = set (remove1 x xs) \<union> set ys"
proof -
  assume f: "findIndex (\<lambda>v. v = x) xs = Some i"
  have "spliceArr i (Suc 0) [] xs = take i xs @ drop (i + 1) xs" by (simp add: spliceArr_def)
  with splice_delete_is_remove1 [OF f] have "remove1 x xs = take i xs @ drop (i + 1) xs"
    by simp
  then show ?thesis by (auto simp: spliceArr_def)
qed

lemma count_list_splice_insert:
  "findIndex (\<lambda>v. v = x) xs = Some i \<Longrightarrow>
     count_list (spliceArr i (Suc 0) ys xs) z = count_list (remove1 x xs) z + count_list ys z"
proof -
  assume f: "findIndex (\<lambda>v. v = x) xs = Some i"
  have "spliceArr i (Suc 0) [] xs = take i xs @ drop (i + 1) xs" by (simp add: spliceArr_def)
  with splice_delete_is_remove1 [OF f] have "remove1 x xs = take i xs @ drop (i + 1) xs"
    by simp
  then show ?thesis by (simp add: spliceArr_def)
qed

lemma count_list_remove1_le: "count_list (remove1 x xs) z \<le> count_list xs z"
  by (induction xs) auto

lemma count_list_map_JStr: "count_list (map JStr rs) (JStr r) = count_list rs r"
  by (induction rs) auto

lemma not_in_remove1_if_once: "count_list xs x \<le> 1 \<Longrightarrow> x \<notin> set (remove1 x xs)"
  by (induction xs) (auto simp: count_list_0_iff)

lemma replaceInArray_absent: "JStr label \<notin> set ds \<Longrightarrow> replaceInArray label rs ds = ds"
  by (simp add: replaceInArray_def findIndex_absent)

lemma replaceInArray_removes_only:
  assumes "JStr label \<in> set ds" and "rs = [] \<or> JStr (hd rs) \<in> set ds"
  shows "replaceInArray label rs ds = remove1 (JStr label) ds"
proof -
  from assms(1) obtain i where i: "findIndex (\<lambda>v. v = JStr label) ds = Some i"
    using findIndex_None_iff [of "JStr label" ds] by (cases "findIndex (\<lambda>v. v = JStr label) ds") auto
  with assms(2) show ?thesis
    by (auto simp: replaceInArray_def splice_delete_is_remove1 [OF i])
qed

lemma replaceInArray_count_first:
  assumes "rs \<noteq> []"
  shows "count_list (replaceInArray label rs ds) (JStr (hd rs))
           \<le> max (count_list ds (JStr (hd rs))) (count_list rs (hd rs))"
proof (cases "findIndex (\<lambda>v. v = JStr label) ds")
  case None
  then show ?thesis by (simp add: replaceInArray_def)
next
  case (Some i)
  show ?thesis
  proof (cases "JStr (hd rs) \<in> set ds")
    case True
    with Some assms have "replaceInArray label rs ds = remove1 (JStr label) ds"
      by (simp add: replaceInArray_def splice_delete_is_remove1 [OF Some])
    then show ?thesis
      using count_list_remove1_le [of "JStr label" ds "JStr (hd rs)"] by simp
  next
    case False
    then have "count_list ds (JStr (hd rs)) = 0" by (simp add: count_list_0_iff)
    with count_list_remove1_le [of "JStr label" ds "JStr (hd rs)"]
    have z: "count_list (remove1 (JStr label) ds) (JStr (hd rs)) = 0" by simp
    from False Some assms
    have "replaceInArray label rs ds = spliceArr i (Suc 0) (map JStr rs) ds"
      by (simp add: replaceInArray_def)
    moreover have "count_list (spliceArr i (Suc 0) (map JStr rs) ds) (JStr (hd rs))
             = count_list (remove1 (JStr label) ds) (JStr (hd rs))
               + count_list (map JStr rs) (JStr (hd rs))"
      by (rule count_list_splice_insert [OF Some])
    ultimately have "count_list (replaceInArray label rs ds) (JStr (hd rs))
             = count_list rs (hd rs)"
      using z by (simp only: count_list_map_JStr add_0)
    then show ?thesis by simp
  qed
qed

lemma replaceInArray_label_gone:
  assumes "count_list ds (JStr label) \<le> 1" and "label \<notin> set rs"
  shows "JStr label \<notin> set (replaceInArray label rs ds)"
proof (cases "findIndex (\<lambda>v. v = JStr label) ds")
  case None
  then have "JStr label \<notin> set ds" by (simp add: findIndex_None_iff)
  then show ?thesis by (simp add: replaceInArray_absent)
next
  case (Some i)
  have gone: "JStr label \<notin> set (remove1 (JStr label) ds)"
    using assms(1) by (rule not_in_remove1_if_once)
  have fresh: "JStr label \<notin> set (map JStr rs)" using assms(2) by auto
  show ?thesis
    using Some gone fresh
    by (auto simp: replaceInArray_def set_splice_insert [OF Some] simp del: set_map)
qed

lemma replaceInArray_idem:
  assumes "count_list ds (JStr label) \<le> 1" and "label \<notin> set rs"
  shows "replaceInArray label rs (replaceInArray label rs ds) = replaceInArray label rs ds"
  using replaceInArray_label_gone [OF assms] by (rule replaceInArray_absent)

lemma replaceInArray_idem_guarded:
  assumes "count_list ds (JStr label) \<le> 1" and "rs = [] \<or> JStr (hd rs) \<in> set ds"
  shows "replaceInArray label rs (replaceInArray label rs ds) = replaceInArray label rs ds"
proof (cases "JStr label \<in> set ds")
  case True
  then have "replaceInArray label rs ds = remove1 (JStr label) ds"
    using assms(2) by (rule replaceInArray_removes_only)
  moreover have "JStr label \<notin> set (remove1 (JStr label) ds)"
    using assms(1) by (rule not_in_remove1_if_once)
  ultimately show ?thesis by (simp add: replaceInArray_absent)
next
  case False
  then show ?thesis by (simp add: replaceInArray_absent)
qed

lemma replaceInArray_count_present:
  assumes "rs = [] \<or> JStr (hd rs) \<in> set ds"
  shows "count_list (replaceInArray label rs ds) z \<le> count_list ds z"
proof (cases "JStr label \<in> set ds")
  case True
  then have "replaceInArray label rs ds = remove1 (JStr label) ds"
    using assms by (rule replaceInArray_removes_only)
  then show ?thesis by (simp add: count_list_remove1_le)
next
  case False
  then show ?thesis by (simp add: replaceInArray_absent)
qed

lemma count_list_distinct_le: "distinct xs \<Longrightarrow> count_list xs x \<le> Suc 0"
  by (induction xs) (auto simp: count_list_0_iff)

lemma replaceInArray_count_distinct:
  assumes "rs \<noteq> []" and "distinct rs" and "JStr (hd rs) \<notin> set ds"
  shows "count_list (replaceInArray label rs ds) (JStr (hd rs)) \<le> 1"
proof -
  have "count_list ds (JStr (hd rs)) = 0" using assms(3) by (simp add: count_list_0_iff)
  moreover have "count_list rs (hd rs) \<le> Suc 0" using assms(2) by (rule count_list_distinct_le)
  ultimately show ?thesis
    using replaceInArray_count_first [OF assms(1), of label ds] by simp
qed


subsection \<open>C2: what relabelling leaves in \<open>dependsOn\<close>\<close>

text \<open>
  Claim C2 at the input where the code departs from it. Task \<open>B\<close> depends on the
  one-element sequence \<open>["A"]\<close>; relabelling \<open>A\<close> with no replacement leaves \<open>B\<close>
  with the key \<open>dependsOn\<close> present and holding the empty sequence, whereas the same
  relabelling of the single string \<open>"A"\<close> deletes the key. The two other parts of the
  claim hold: the single string \<open>"A"\<close> relabelled with \<open>[X, Y]\<close> becomes the
  sequence \<open>[X, Y]\<close>, and \<open>["A", "C"]\<close> relabelled with nothing becomes \<open>["C"]\<close>.
\<close>

theorem replaceInDependsOn_leaves_empty_array:
  "replaceInDependsOn ''A'' [taskB (JArr [JStr ''A''])] [] = [taskB (JArr [])]
   \<and> dependsOnOf (taskB (JArr [])) = Some (JArr [])
   \<and> map dependsOnOf (replaceInDependsOn ''A'' [taskB (JStr ''A'')] []) = [None]
   \<and> map dependsOnOf (replaceInDependsOn ''A'' [taskB (JStr ''A'')] [''X'', ''Y''])
       = [Some (JArr [JStr ''X'', JStr ''Y''])]
   \<and> map dependsOnOf (replaceInDependsOn ''A'' [taskB (JArr [JStr ''A'', JStr ''C''])] [])
       = [Some (JArr [JStr ''C''])]"
  by (simp add: replaceInDependsOn_def replaceInTask_def replaceInArray_def spliceArr_def
      taskB_def dependsOnOf_def)

subsection \<open>C10: an array that already holds the first replacement\<close>

text \<open>
  Claim C10, as the code has it. For a task whose \<open>dependsOn\<close> is an array, the
  relabelling rewrites that array with \<open>replaceInArray\<close>. When the array holds both
  the old label and the first replacement label, the first occurrence of the old label
  is removed and nothing is inserted. Relabelling therefore never introduces a duplicate
  of the first replacement label: when the array holds that label already, it is no more
  frequent afterwards than before, and when the array does not hold it, it occurs at
  most once afterwards, the replacement labels being pairwise different as they are at
  every call of \<open>replaceInDependsOn\<close>. When the array holds both labels and the old
  label only once, a second application of the same relabelling leaves the array, and
  the task, unchanged; the same is true of any array that holds the old label at most
  once when the old label is not among the replacements.
\<close>

theorem replaceInArray_guarded_by_first_replacement:
  assumes "map_of kvs ''dependsOn'' = Some (JArr ds)"
  shows "dependsOnOf (replaceInTask label rs (JObj kvs))
           = Some (JArr (replaceInArray label rs ds))
         \<and> (rs \<noteq> [] \<and> JStr label \<in> set ds \<and> JStr (hd rs) \<in> set ds \<longrightarrow>
              replaceInArray label rs ds = remove1 (JStr label) ds)
         \<and> (rs \<noteq> [] \<and> JStr (hd rs) \<in> set ds \<longrightarrow>
              count_list (replaceInArray label rs ds) (JStr (hd rs))
                \<le> count_list ds (JStr (hd rs)))
         \<and> (rs \<noteq> [] \<and> distinct rs \<and> JStr (hd rs) \<notin> set ds \<longrightarrow>
              count_list (replaceInArray label rs ds) (JStr (hd rs)) \<le> 1)
         \<and> (rs \<noteq> [] \<and> JStr label \<in> set ds \<and> JStr (hd rs) \<in> set ds
              \<and> count_list ds (JStr label) \<le> 1 \<longrightarrow>
              replaceInArray label rs (replaceInArray label rs ds)
                = replaceInArray label rs ds
              \<and> replaceInTask label rs (replaceInTask label rs (JObj kvs))
                  = replaceInTask label rs (JObj kvs))
         \<and> (count_list ds (JStr label) \<le> 1 \<and> label \<notin> set rs \<longrightarrow>
              replaceInArray label rs (replaceInArray label rs ds)
                = replaceInArray label rs ds
              \<and> replaceInTask label rs (replaceInTask label rs (JObj kvs))
                  = replaceInTask label rs (JObj kvs))"
proof -
  have task: "replaceInTask label rs (JObj kvs)
                = JObj (AList.update ''dependsOn'' (JArr (replaceInArray label rs ds)) kvs)"
    using assms by (simp add: replaceInTask_def)
  have read: "dependsOnOf (replaceInTask label rs (JObj kvs))
           = Some (JArr (replaceInArray label rs ds))"
    using assms by (rule replaceInTask_array)
  have twice: "replaceInTask label rs (replaceInTask label rs (JObj kvs))
                 = replaceInTask label rs (JObj kvs)"
    if idem: "replaceInArray label rs (replaceInArray label rs ds) = replaceInArray label rs ds"
  proof -
    have "replaceInTask label rs
            (JObj (AList.update ''dependsOn'' (JArr (replaceInArray label rs ds)) kvs))
          = JObj (AList.update ''dependsOn''
                   (JArr (replaceInArray label rs (replaceInArray label rs ds)))
                   (AList.update ''dependsOn'' (JArr (replaceInArray label rs ds)) kvs))"
      by (simp add: replaceInTask_def update_conv')
    with idem task show ?thesis by simp
  qed
  have removes: "rs \<noteq> [] \<and> JStr label \<in> set ds \<and> JStr (hd rs) \<in> set ds \<longrightarrow>
              replaceInArray label rs ds = remove1 (JStr label) ds"
    using replaceInArray_removes_only [of label ds rs] by blast
  have present: "rs \<noteq> [] \<and> JStr (hd rs) \<in> set ds \<longrightarrow>
              count_list (replaceInArray label rs ds) (JStr (hd rs))
                \<le> count_list ds (JStr (hd rs))"
    using replaceInArray_count_present [of rs ds label "JStr (hd rs)"] by blast
  have absent: "rs \<noteq> [] \<and> distinct rs \<and> JStr (hd rs) \<notin> set ds \<longrightarrow>
              count_list (replaceInArray label rs ds) (JStr (hd rs)) \<le> 1"
    using replaceInArray_count_distinct [of rs ds label] by blast
  have guarded: "rs \<noteq> [] \<and> JStr label \<in> set ds \<and> JStr (hd rs) \<in> set ds
              \<and> count_list ds (JStr label) \<le> 1 \<longrightarrow>
              replaceInArray label rs (replaceInArray label rs ds)
                = replaceInArray label rs ds
              \<and> replaceInTask label rs (replaceInTask label rs (JObj kvs))
                  = replaceInTask label rs (JObj kvs)"
    using replaceInArray_idem_guarded [of ds label rs] twice by blast
  have other: "count_list ds (JStr label) \<le> 1 \<and> label \<notin> set rs \<longrightarrow>
              replaceInArray label rs (replaceInArray label rs ds)
                = replaceInArray label rs ds
              \<and> replaceInTask label rs (replaceInTask label rs (JObj kvs))
                  = replaceInTask label rs (JObj kvs)"
    using replaceInArray_idem [of ds label rs] twice by blast
  from read removes present absent guarded other show ?thesis by blast
qed

theorem replaceInArray_guarded_by_first_replacement_witness:
  "map_of [(''label'', JStr ''B''), (''dependsOn'', JArr [JStr ''A'', JStr ''C'', JStr ''X''])]
      ''dependsOn'' = Some (JArr [JStr ''A'', JStr ''C'', JStr ''X''])
   \<and> JStr ''A'' \<in> set [JStr ''A'', JStr ''C'', JStr ''X'']
   \<and> JStr (hd [''X'', ''Y'']) \<in> set [JStr ''A'', JStr ''C'', JStr ''X'']
   \<and> count_list [JStr ''A'', JStr ''C'', JStr ''X''] (JStr ''A'') \<le> 1
   \<and> dependsOnOf (replaceInTask ''A'' [''X'', ''Y'']
        (JObj [(''label'', JStr ''B''),
               (''dependsOn'', JArr [JStr ''A'', JStr ''C'', JStr ''X''])]))
       = Some (JArr [JStr ''C'', JStr ''X''])
   \<and> replaceInArray ''A'' [''X'', ''Y''] [JStr ''A'', JStr ''C'', JStr ''X'']
       = [JStr ''C'', JStr ''X'']
   \<and> replaceInArray ''A'' [''X'', ''Y''] [JStr ''C'', JStr ''X''] = [JStr ''C'', JStr ''X'']"
proof -
  have h: "map_of [(''label'', JStr ''B''),
                   (''dependsOn'', JArr [JStr ''A'', JStr ''C'', JStr ''X''])]
             ''dependsOn'' = Some (JArr [JStr ''A'', JStr ''C'', JStr ''X''])"
    by simp
  from replaceInArray_guarded_by_first_replacement
         [OF h, of "''A''" "[''X'', ''Y'']"] h
  show ?thesis
    by (simp add: replaceInArray_def spliceArr_def)
qed

text \<open>The claim as written fails when the old label occurs twice: the array holds both
  the old label and the first replacement, the first application removes the first
  \<open>"A"\<close> and leaves the second, and the second application changes the array
  again.\<close>

theorem replaceInArray_twice_differs:
  "JStr ''A'' \<in> set [JStr ''A'', JStr ''A'', JStr ''X'']
   \<and> JStr (hd [''X'']) \<in> set [JStr ''A'', JStr ''A'', JStr ''X'']
   \<and> replaceInArray ''A'' [''X''] [JStr ''A'', JStr ''A'', JStr ''X'']
       = [JStr ''A'', JStr ''X'']
   \<and> JStr ''A'' \<in> set (replaceInArray ''A'' [''X''] [JStr ''A'', JStr ''A'', JStr ''X''])
   \<and> replaceInArray ''A'' [''X'']
        (replaceInArray ''A'' [''X''] [JStr ''A'', JStr ''A'', JStr ''X''])
       = [JStr ''X'']
   \<and> replaceInArray ''A'' [''X'']
        (replaceInArray ''A'' [''X''] [JStr ''A'', JStr ''A'', JStr ''X''])
       \<noteq> replaceInArray ''A'' [''X''] [JStr ''A'', JStr ''A'', JStr ''X'']"
  by (simp add: replaceInArray_def spliceArr_def)

subsection \<open>Literal replacement and the three tokens\<close>









lemma segments_other:
  "tokenAt (c # cs) = None \<Longrightarrow> segments (c # cs) = Other c # segments cs"
  by simp






subsection \<open>C8: the launch-configuration rewrite\<close>




subsection \<open>The manifest step, case by case\<close>

lemmas manifest_paths =
  oldAppPackageFolderPath_def oldBicepFilePath_def oldManifestPath_def oldAadManifestPath_def
  TemplateFolderName_def AppPackageFolderName_def MANIFEST_TEMPLATE_CONSOLIDATE_def pathJoin_def

lemma prepared_tree:
  assumes "\<not> within ''appPackage'' q"
  shows "tree (fsCopy (fsEnsureDir c ''appPackage'') src ''appPackage/resources'') q = tree c q"
    and "tree (fsEnsureDir c ''appPackage'') q = tree c q"
proof -
  from assms have a: "q \<noteq> ''appPackage''" and b: "\<not> prefix ''appPackage/'' q"
    by (auto simp: within_def)
  from b have "\<not> prefix (''appPackage/'' @ ''resources/'') q"
    using append_prefixD by blast
  then have c: "\<not> within ''appPackage/resources'' q"
    using b by (auto simp: within_def prefix_def)
  show "tree (fsEnsureDir c ''appPackage'') q = tree c q"
    using a by (simp add: fsEnsureDir_def)
  then show "tree (fsCopy (fsEnsureDir c ''appPackage'') src ''appPackage/resources'') q = tree c q"
    using c by (simp add: fsCopy_def)
qed

lemma prepared_reads:
  assumes "fsPathExists ctx oldAppPackageFolderPath" and "\<not> within ''appPackage'' q"
  shows "tree (prepared ctx) q = tree ctx q"
  using assms prepared_tree [OF assms(2)]
  by (simp add: prepared_def backup_def Let_def manifest_paths)

lemma prepared_modified:
  "set (modifiedPaths (prepared ctx))
     \<subseteq> set (modifiedPaths ctx) \<union> {''appPackage'', ''appPackage/resources''}"
  by (auto simp: prepared_def backup_def Let_def manifest_paths fsEnsureDir_def fsCopy_def)

lemma step_after_backup:
  assumes "fsPathExists ctx oldAppPackageFolderPath"
  shows "replacePlaceholderForManifests f ctx =
     (let c3 = prepared ctx
      in if \<not> fsPathExists c3 oldBicepFilePath
         then (c3, Some (ReadFileError
                 (OtherError ''templates/azure/provision.bicep does not exist'')))
         else
           (case readFile c3 oldBicepFilePath of
              Inl e \<Rightarrow> (c3, Some e)
            | Inr bicepContent \<Rightarrow>
                if fsPathExists c3 oldManifestPath
                then
                  (case readFile c3 oldManifestPath of
                     Inl e \<Rightarrow> (c3, Some e)
                   | Inr oldManifest \<Rightarrow>
                       (let c4 = fsWriteFile c3
                                   (pathJoin AppPackageFolderName MANIFEST_TEMPLATE_CONSOLIDATE)
                                   (f oldManifest bicepContent)
                        in if fsPathExists c4 oldAadManifestPath
                           then
                             (case readFile c4 oldAadManifestPath of
                                Inl e \<Rightarrow> (c4, Some e)
                              | Inr oldAadManifest \<Rightarrow>
                                  (fsWriteFile c4 ''aad.manifest.template.json''
                                     (f oldAadManifest bicepContent),
                                   None))
                           else (c4, None)))
                else (c3, Some (ReadFileError (OtherError
                        ''templates/appPackage/manifest.template.json does not exist'')))))"
proof -
  obtain c1 where b: "backup ctx oldAppPackageFolderPath = (True, c1)"
    using assms by (simp add: backup_def)
  show ?thesis
    unfolding replacePlaceholderForManifests_def prepared_def Let_def b
      prod.case snd_conv not_True_eq_False if_False
    by (rule refl)
qed

lemma outside_appPackage:
  "\<not> within ''appPackage'' oldBicepFilePath"
  "\<not> within ''appPackage'' oldManifestPath"
  "\<not> within ''appPackage'' oldAadManifestPath"
  "\<not> within ''appPackage'' ''aad.manifest.template.json''"
  by (simp_all add: within_def manifest_paths)

lemma no_folder:
  assumes "\<not> fsPathExists ctx oldAppPackageFolderPath"
  shows "replacePlaceholderForManifests f ctx =
           (ctx, Some (ReadFileError (OtherError ''templates/appPackage does not exist'')))"
  using assms by (simp add: replacePlaceholderForManifests_def backup_def)

lemma no_bicep:
  assumes "fsPathExists ctx oldAppPackageFolderPath" and "\<not> fsPathExists ctx oldBicepFilePath"
  shows "replacePlaceholderForManifests f ctx =
           (prepared ctx, Some (ReadFileError
              (OtherError ''templates/azure/provision.bicep does not exist'')))"
proof -
  have "\<not> fsPathExists (prepared ctx) oldBicepFilePath"
    using assms(2) prepared_reads [OF assms(1) outside_appPackage(1)]
    by (simp add: fsPathExists_def)
  then show ?thesis by (simp add: step_after_backup [OF assms(1)] Let_def)
qed

lemma no_manifest:
  assumes "fsPathExists ctx oldAppPackageFolderPath"
    and "tree ctx oldBicepFilePath = Some (File b)"
    and "\<not> fsPathExists ctx oldManifestPath"
  shows "replacePlaceholderForManifests f ctx =
           (prepared ctx, Some (ReadFileError (OtherError
              ''templates/appPackage/manifest.template.json does not exist'')))"
proof -
  have "tree (prepared ctx) oldBicepFilePath = Some (File b)"
    and "tree (prepared ctx) oldManifestPath = None"
    using assms(2,3) prepared_reads [OF assms(1)] outside_appPackage
    by (simp_all add: fsPathExists_def)
  then show ?thesis
    by (simp add: step_after_backup [OF assms(1)] Let_def fsPathExists_def readFile_def)
qed

lemma manifest_missing_throws:
  assumes "\<not> fsPathExists ctx oldManifestPath"
  shows "\<exists>e. snd (replacePlaceholderForManifests f ctx) = Some e"
proof (cases "fsPathExists ctx oldAppPackageFolderPath")
  case False
  then show ?thesis by (simp add: no_folder)
next
  case True
  have m: "tree (prepared ctx) oldManifestPath = None"
    using assms prepared_reads [OF True outside_appPackage(2)] by (simp add: fsPathExists_def)
  show ?thesis
    using m
    by (auto simp: step_after_backup [OF True] Let_def fsPathExists_def split: sum.splits)
qed

lemma bicep_missing_throws:
  assumes "\<not> fsPathExists ctx oldBicepFilePath"
  shows "\<exists>e. snd (replacePlaceholderForManifests f ctx) = Some e"
proof (cases "fsPathExists ctx oldAppPackageFolderPath")
  case False
  then show ?thesis by (simp add: no_folder)
next
  case True
  with assms show ?thesis by (simp add: no_bicep)
qed

lemma no_aad:
  assumes "fsPathExists ctx oldAppPackageFolderPath"
    and "tree ctx oldBicepFilePath = Some (File b)"
    and "tree ctx oldManifestPath = Some (File m)"
    and "\<not> fsPathExists ctx oldAadManifestPath"
  shows "replacePlaceholderForManifests f ctx =
           (fsWriteFile (prepared ctx) ''appPackage/manifest.template.json'' (f m b), None)"
proof -
  have "tree (prepared ctx) oldBicepFilePath = Some (File b)"
    and "tree (prepared ctx) oldManifestPath = Some (File m)"
    and "tree (prepared ctx) oldAadManifestPath = None"
    using assms(2,3,4) prepared_reads [OF assms(1)] outside_appPackage
    by (simp_all add: fsPathExists_def)
  moreover have "oldAadManifestPath \<noteq> ''appPackage/manifest.template.json''"
    by (simp add: manifest_paths)
  ultimately show ?thesis
    by (simp add: step_after_backup [OF assms(1)] Let_def fsPathExists_def readFile_def
          fsWriteFile_def AppPackageFolderName_def MANIFEST_TEMPLATE_CONSOLIDATE_def pathJoin_def)
qed

lemma with_aad:
  assumes "fsPathExists ctx oldAppPackageFolderPath"
    and "tree ctx oldBicepFilePath = Some (File b)"
    and "tree ctx oldManifestPath = Some (File m)"
    and "tree ctx oldAadManifestPath = Some (File a)"
  shows "replacePlaceholderForManifests f ctx =
           (fsWriteFile
              (fsWriteFile (prepared ctx) ''appPackage/manifest.template.json'' (f m b))
              ''aad.manifest.template.json'' (f a b), None)"
proof -
  have "tree (prepared ctx) oldBicepFilePath = Some (File b)"
    and "tree (prepared ctx) oldManifestPath = Some (File m)"
    and "tree (prepared ctx) oldAadManifestPath = Some (File a)"
    using assms(2,3,4) prepared_reads [OF assms(1)] outside_appPackage
    by (simp_all add: fsPathExists_def)
  moreover have "oldAadManifestPath \<noteq> ''appPackage/manifest.template.json''"
    by (simp add: manifest_paths)
  ultimately show ?thesis
    by (simp add: step_after_backup [OF assms(1)] Let_def fsPathExists_def readFile_def
          fsWriteFile_def AppPackageFolderName_def MANIFEST_TEMPLATE_CONSOLIDATE_def pathJoin_def)
qed

subsection \<open>C4: required and optional manifests\<close>

text \<open>
  Claim C4. In the manifest step, a missing
  \<open>templates/appPackage/manifest.template.json\<close>, a missing
  \<open>templates/azure/provision.bicep\<close> and a missing \<open>templates/appPackage\<close> each
  end the step with a thrown error, whatever else the project holds. In the order of the
  step's checks: a missing \<open>templates/appPackage\<close> folder throws \<open>ReadFileError\<close> before
  anything is written; with the folder there, a missing
  \<open>templates/azure/provision.bicep\<close> throws \<open>ReadFileError\<close>; with folder and bicep
  file there, the missing application manifest throws \<open>ReadFileError\<close>. With folder,
  bicep file and application manifest there and no \<open>aad.template.json\<close>, the step
  throws nothing, writes the rewritten application manifest and neither writes nor
  records \<open>aad.manifest.template.json\<close>. An error thrown by the step ends the
  pipeline run at this step.
\<close>

theorem replacePlaceholderForManifests_required_and_optional:
  "(\<not> fsPathExists ctx ''templates/appPackage/manifest.template.json''
    \<or> \<not> fsPathExists ctx ''templates/azure/provision.bicep''
    \<or> \<not> fsPathExists ctx ''templates/appPackage'' \<longrightarrow>
      (\<exists>e. snd (replacePlaceholderForManifests f ctx) = Some e))
   \<and> (\<not> fsPathExists ctx ''templates/appPackage'' \<longrightarrow>
        replacePlaceholderForManifests f ctx =
          (ctx, Some (ReadFileError (OtherError ''templates/appPackage does not exist''))))
   \<and> (fsPathExists ctx ''templates/appPackage''
        \<and> \<not> fsPathExists ctx ''templates/azure/provision.bicep'' \<longrightarrow>
        snd (replacePlaceholderForManifests f ctx) =
          Some (ReadFileError (OtherError ''templates/azure/provision.bicep does not exist'')))
   \<and> (\<forall>b. fsPathExists ctx ''templates/appPackage''
        \<and> tree ctx ''templates/azure/provision.bicep'' = Some (File b)
        \<and> \<not> fsPathExists ctx ''templates/appPackage/manifest.template.json'' \<longrightarrow>
        snd (replacePlaceholderForManifests f ctx) =
          Some (ReadFileError (OtherError
            ''templates/appPackage/manifest.template.json does not exist'')))
   \<and> (\<forall>b m. fsPathExists ctx ''templates/appPackage''
        \<and> tree ctx ''templates/azure/provision.bicep'' = Some (File b)
        \<and> tree ctx ''templates/appPackage/manifest.template.json'' = Some (File m)
        \<and> \<not> fsPathExists ctx ''templates/appPackage/aad.template.json'' \<longrightarrow>
        (\<exists>ctx'. replacePlaceholderForManifests f ctx = (ctx', None)
           \<and> tree ctx' ''appPackage/manifest.template.json'' = Some (File (f m b))
           \<and> tree ctx' ''aad.manifest.template.json'' = tree ctx ''aad.manifest.template.json''
           \<and> set (modifiedPaths ctx') \<subseteq> set (modifiedPaths ctx)
                \<union> {''appPackage'', ''appPackage/resources'',
                    ''appPackage/manifest.template.json''}))
   \<and> (\<forall>c' e run ms. replacePlaceholderForManifests f ctx = (c', Some e)
        \<and> run ReplacePlaceholderForManifests = replacePlaceholderForManifests f \<longrightarrow>
        runMigrations run (ReplacePlaceholderForManifests # ms) ctx = (c', Some e))"
proof -
  have p: "oldAppPackageFolderPath = ''templates/appPackage''"
    "oldBicepFilePath = ''templates/azure/provision.bicep''"
    "oldManifestPath = ''templates/appPackage/manifest.template.json''"
    "oldAadManifestPath = ''templates/appPackage/aad.template.json''"
    by (simp_all add: manifest_paths)
  have 1: "\<not> fsPathExists ctx ''templates/appPackage/manifest.template.json''
    \<or> \<not> fsPathExists ctx ''templates/azure/provision.bicep''
    \<or> \<not> fsPathExists ctx ''templates/appPackage'' \<longrightarrow>
      (\<exists>e. snd (replacePlaceholderForManifests f ctx) = Some e)"
    using manifest_missing_throws [of ctx f] bicep_missing_throws [of ctx f]
      no_folder [of ctx f]
    by (auto simp: p)
  have 2: "\<not> fsPathExists ctx ''templates/appPackage'' \<longrightarrow>
        replacePlaceholderForManifests f ctx =
          (ctx, Some (ReadFileError (OtherError ''templates/appPackage does not exist'')))"
    using no_folder [of ctx f] by (simp add: p)
  have 3: "fsPathExists ctx ''templates/appPackage''
        \<and> \<not> fsPathExists ctx ''templates/azure/provision.bicep'' \<longrightarrow>
        snd (replacePlaceholderForManifests f ctx) =
          Some (ReadFileError (OtherError ''templates/azure/provision.bicep does not exist''))"
    using no_bicep [of ctx f] by (simp add: p)
  have 4: "fsPathExists ctx ''templates/appPackage''
        \<and> tree ctx ''templates/azure/provision.bicep'' = Some (File b)
        \<and> \<not> fsPathExists ctx ''templates/appPackage/manifest.template.json'' \<longrightarrow>
        snd (replacePlaceholderForManifests f ctx) =
          Some (ReadFileError (OtherError
            ''templates/appPackage/manifest.template.json does not exist''))" for b
    using no_manifest [of ctx b f] by (simp add: p)
  have 5: "\<exists>ctx'. replacePlaceholderForManifests f ctx = (ctx', None)
           \<and> tree ctx' ''appPackage/manifest.template.json'' = Some (File (f m b))
           \<and> tree ctx' ''aad.manifest.template.json'' = tree ctx ''aad.manifest.template.json''
           \<and> set (modifiedPaths ctx') \<subseteq> set (modifiedPaths ctx)
                \<union> {''appPackage'', ''appPackage/resources'',
                    ''appPackage/manifest.template.json''}"
    if h: "fsPathExists ctx ''templates/appPackage''"
        "tree ctx ''templates/azure/provision.bicep'' = Some (File b)"
        "tree ctx ''templates/appPackage/manifest.template.json'' = Some (File m)"
        "\<not> fsPathExists ctx ''templates/appPackage/aad.template.json''" for b m
  proof -
    let ?c = "fsWriteFile (prepared ctx) ''appPackage/manifest.template.json'' (f m b)"
    have run: "replacePlaceholderForManifests f ctx = (?c, None)"
      using no_aad [of ctx b m f] h by (simp add: p)
    have w: "tree ?c ''appPackage/manifest.template.json'' = Some (File (f m b))"
      by (simp add: fsWriteFile_def)
    have a: "tree ?c ''aad.manifest.template.json'' = tree ctx ''aad.manifest.template.json''"
      using prepared_reads [OF _ outside_appPackage(4), of ctx] h(1)
      by (simp add: fsWriteFile_def p)
    have md: "set (modifiedPaths ?c) \<subseteq> set (modifiedPaths ctx)
                \<union> {''appPackage'', ''appPackage/resources'',
                    ''appPackage/manifest.template.json''}"
      using prepared_modified [of ctx] by (auto simp: fsWriteFile_def)
    from run w a md show ?thesis by blast
  qed
  have 6: "replacePlaceholderForManifests f ctx = (c', Some e)
        \<and> run ReplacePlaceholderForManifests = replacePlaceholderForManifests f \<longrightarrow>
        runMigrations run (ReplacePlaceholderForManifests # ms) ctx = (c', Some e)"
    for c' e ms and run :: "Migration \<Rightarrow> MigrationContext step"
    by simp
  from 1 2 3 4 5 6 show ?thesis by blast
qed

lemma manifestProject_facts:
  "fsPathExists manifestProject ''templates/appPackage''"
  "tree manifestProject ''templates/azure/provision.bicep'' = Some (File ''bicep'')"
  "tree manifestProject ''templates/appPackage/manifest.template.json''
     = Some (File ''manifest'')"
  "\<not> fsPathExists manifestProject ''templates/appPackage/aad.template.json''"
  "tree manifestProject ''aad.manifest.template.json'' = None"
  by (simp_all add: manifestProject_def fsPathExists_def)

theorem replacePlaceholderForManifests_required_and_optional_witness:
  "fsPathExists manifestProject ''templates/appPackage''
   \<and> tree manifestProject ''templates/azure/provision.bicep'' = Some (File ''bicep'')
   \<and> tree manifestProject ''templates/appPackage/manifest.template.json''
        = Some (File ''manifest'')
   \<and> \<not> fsPathExists manifestProject ''templates/appPackage/aad.template.json''
   \<and> (\<exists>ctx'. replacePlaceholderForManifests tagV3 manifestProject = (ctx', None)
          \<and> tree ctx' ''appPackage/manifest.template.json'' = Some (File ''v3:manifest'')
          \<and> tree ctx' ''aad.manifest.template.json'' = None)"
proof -
  from replacePlaceholderForManifests_required_and_optional [of manifestProject tagV3]
    manifestProject_facts
  obtain ctx' where
    "replacePlaceholderForManifests tagV3 manifestProject = (ctx', None)"
    "tree ctx' ''appPackage/manifest.template.json'' = Some (File (tagV3 ''manifest'' ''bicep''))"
    "tree ctx' ''aad.manifest.template.json'' = tree manifestProject ''aad.manifest.template.json''"
    by blast
  with manifestProject_facts show ?thesis by (simp add: tagV3_def)
qed

subsection \<open>The state conversion loop\<close>

lemma matchedEnvs_Cons:
  "matchedEnvs (n # ns) =
     (case execStateRegex n of None \<Rightarrow> matchedEnvs ns | Some e \<Rightarrow> e # matchedEnvs ns)"
  by (simp add: matchedEnvs_def List.map_filter_def split: option.splits)

lemma matchedEnvs_Nil: "matchedEnvs [] = []"
  by (simp add: matchedEnvs_def List.map_filter_def)

lemma matchedEnvs_iff:
  "e \<in> set (matchedEnvs ns) \<longleftrightarrow> (\<exists>n \<in> set ns. execStateRegex n = Some e)"
  by (induction ns) (auto simp: matchedEnvs_Cons matchedEnvs_Nil split: option.splits)

lemma envFilePath_inj: "envFilePath h e = envFilePath h e' \<longleftrightarrow> e = e'"
  by (simp add: envFilePath_def pathJoin_def)

lemma envFilePath_not_folder: "envFilePath h e \<noteq> SettingsFolderName h"
  by (simp add: envFilePath_def pathJoin_def)

lemma created_frame:
  "p \<noteq> SettingsFolderName h \<Longrightarrow> p \<noteq> envFilePath h e \<Longrightarrow>
     tree (fsCreateFile (fsEnsureDir c (SettingsFolderName h)) (envFilePath h e)) p = tree c p"
  by (simp add: fsCreateFile_def fsEnsureDir_def)

lemma created_node:
  "tree (fsCreateFile (fsEnsureDir c (SettingsFolderName h)) (envFilePath h e)) (envFilePath h e)
     = (case tree c (envFilePath h e) of None \<Rightarrow> Some (File []) | Some n \<Rightarrow> Some n)"
  using envFilePath_not_folder [of h e]
  by (auto simp: fsCreateFile_def fsEnsureDir_def split: option.splits)

lemma statesLoop_frame:
  assumes "statesLoop h ns c = (c', r)"
    and "p \<noteq> SettingsFolderName h" and "\<forall>e \<in> set (matchedEnvs ns). p \<noteq> envFilePath h e"
  shows "tree c' p = tree c p"
  using assms
proof (induction ns arbitrary: c)
  case Nil
  then show ?case by simp
next
  case (Cons n ns)
  show ?case
  proof (cases "execStateRegex n")
    case None
    with Cons show ?thesis by (simp add: matchedEnvs_Cons)
  next
    case (Some e)
    let ?c2 = "fsCreateFile (fsEnsureDir c (SettingsFolderName h)) (envFilePath h e)"
    from Cons.prems(3) Some have pe: "p \<noteq> envFilePath h e"
      and rest: "\<forall>e \<in> set (matchedEnvs ns). p \<noteq> envFilePath h e"
      by (simp_all add: matchedEnvs_Cons)
    have c2: "tree ?c2 p = tree c p"
      using Cons.prems(2) pe by (rule created_frame)
    have w: "tree (fsWriteFile ?c2 (envFilePath h e) t) p = tree c p" for t
      using c2 pe by (simp add: fsWriteFile_def)
    from Cons.prems(1) Some
    consider "c' = ?c2"
      | "statesLoop h ns ?c2 = (c', r)"
      | t where "statesLoop h ns (fsWriteFile ?c2 (envFilePath h e) t) = (c', r)"
      by (auto simp: Let_def split: sum.splits if_splits)
    then show ?thesis
    proof cases
      case 1
      with c2 show ?thesis by simp
    next
      case 2
      from Cons.IH [OF 2 Cons.prems(2) rest] c2 show ?thesis by simp
    next
      case 3
      from Cons.IH [OF 3 Cons.prems(2) rest] w show ?thesis by simp
    qed
  qed
qed

lemma envNode_idem: "envNode obj conv (envNode obj conv x) = envNode obj conv x"
  by (simp add: envNode_def split: option.splits)

lemma statesLoop_content:
  assumes stable: "\<forall>c p. readStateFile h c p = Inr (objs p)"
    and bicep: "\<forall>c. readBicepContent h c = Inr b"
  shows "\<exists>c'. statesLoop h ns c = (c', None)
           \<and> (\<forall>e \<in> set (matchedEnvs ns).
                 tree c' (envFilePath h e)
                   = envNode (objs (stateFilePath e))
                       (\<lambda>obj. jsonObjectNamesConvertV3 h obj ''state.'' b)
                       (tree c (envFilePath h e)))"
proof (induction ns arbitrary: c)
  case Nil
  then show ?case by (simp add: matchedEnvs_Nil)
next
  case (Cons n ns)
  show ?case
  proof (cases "execStateRegex n")
    case None
    with Cons [of c] show ?thesis by (simp add: matchedEnvs_Cons)
  next
    case (Some e1)
    let ?conv = "\<lambda>obj. jsonObjectNamesConvertV3 h obj ''state.'' b"
    let ?c2 = "fsCreateFile (fsEnsureDir c (SettingsFolderName h)) (envFilePath h e1)"
    define c3 where "c3 =
      (if truthyOpt (objs (stateFilePath e1))
       then fsWriteFile ?c2 (envFilePath h e1) (?conv (the (objs (stateFilePath e1))))
       else ?c2)"
    have step: "statesLoop h (n # ns) c = statesLoop h ns c3"
      using Some stable bicep by (simp add: Let_def c3_def)
    have own: "tree c3 (envFilePath h e1)
                 = envNode (objs (stateFilePath e1)) ?conv (tree c (envFilePath h e1))"
      using created_node [of c h e1]
      by (simp add: c3_def envNode_def fsWriteFile_def)
    have other: "tree c3 (envFilePath h e) = tree c (envFilePath h e)" if "e \<noteq> e1" for e
      using that created_frame [of "envFilePath h e" h e1 c]
        envFilePath_not_folder [of h e] envFilePath_inj [of h e e1]
      by (simp add: c3_def fsWriteFile_def)
    from Cons [of c3] obtain c' where
      run: "statesLoop h ns c3 = (c', None)"
      and ih: "\<forall>e \<in> set (matchedEnvs ns).
                 tree c' (envFilePath h e)
                   = envNode (objs (stateFilePath e)) ?conv (tree c3 (envFilePath h e))"
      by blast
    have "tree c' (envFilePath h e)
            = envNode (objs (stateFilePath e)) ?conv (tree c (envFilePath h e))"
      if e: "e \<in> set (matchedEnvs (n # ns))" for e
    proof (cases "e \<in> set (matchedEnvs ns)")
      case True
      with ih have t: "tree c' (envFilePath h e)
                   = envNode (objs (stateFilePath e)) ?conv (tree c3 (envFilePath h e))"
        by blast
      show ?thesis
      proof (cases "e = e1")
        case True
        with t own show ?thesis by (simp add: envNode_idem)
      next
        case False
        with t other show ?thesis by simp
      qed
    next
      case False
      with e Some have e1: "e = e1" by (simp add: matchedEnvs_Cons)
      have "\<forall>e' \<in> set (matchedEnvs ns). envFilePath h e \<noteq> envFilePath h e'"
        using False by (auto simp: envFilePath_inj)
      from statesLoop_frame [OF run envFilePath_not_folder this]
      show ?thesis using own e1 by simp
    qed
    with run step show ?thesis by auto
  qed
qed

subsection \<open>What the step does for the names its expression matches\<close>

text \<open>
  When \<open>.fx/states\<close> does not exist, \<open>statesMigration\<close> returns the context as it
  was and throws nothing. When it exists and the two readers do not throw (they read the
  legacy files, which the step never writes, so what they return does not depend on the
  context), the step throws nothing and, for every file name of \<open>.fx/states\<close> in
  which the step's regular expression finds \<open>state.<envName>.json\<close>, at any place of
  the name, the path \<open>.env.<envName>\<close> under the settings folder exists afterwards: it
  holds the text that \<open>jsonObjectNamesConvertV3\<close> makes of the state object when
  \<open>state.<envName>.json\<close> reads as one, and is an empty file when it does not and
  nothing was there before. Apart from the settings folder, no path changes but the
  environment files of the names so matched.
\<close>

lemma statesMigration_env_files:
  "(\<not> fsPathExists ctx ''.fx/states'' \<longrightarrow> statesMigration h ctx = (ctx, None))
   \<and> (fsPathExists ctx ''.fx/states''
        \<and> (\<forall>c p. readStateFile h c p = Inr (objs p))
        \<and> (\<forall>c. readBicepContent h c = Inr b) \<longrightarrow>
        (\<exists>ctx'. statesMigration h ctx = (ctx', None)
           \<and> (\<forall>fileName \<in> set (fsReadDirSync h ctx ''.fx/states''). \<forall>envName.
                 execStateRegex fileName = Some envName \<longrightarrow>
                   tree ctx' (SettingsFolderName h @ ''/.env.'' @ envName) \<noteq> None
                   \<and> (\<forall>obj. objs (''.fx/states/state.'' @ envName @ ''.json'') = Some obj
                         \<and> truthy obj \<longrightarrow>
                         tree ctx' (SettingsFolderName h @ ''/.env.'' @ envName)
                           = Some (File (jsonObjectNamesConvertV3 h obj ''state.'' b)))
                   \<and> (\<not> truthyOpt (objs (''.fx/states/state.'' @ envName @ ''.json''))
                        \<and> tree ctx (SettingsFolderName h @ ''/.env.'' @ envName) = None \<longrightarrow>
                         tree ctx' (SettingsFolderName h @ ''/.env.'' @ envName)
                           = Some (File [])))
           \<and> (\<forall>p. tree ctx' p \<noteq> tree ctx p \<longrightarrow>
                 p = SettingsFolderName h
                 \<or> (\<exists>fileName \<in> set (fsReadDirSync h ctx ''.fx/states''). \<exists>envName.
                       execStateRegex fileName = Some envName
                       \<and> p = SettingsFolderName h @ ''/.env.'' @ envName))))"
proof (intro conjI impI)
  assume "\<not> fsPathExists ctx ''.fx/states''"
  then show "statesMigration h ctx = (ctx, None)"
    by (simp add: statesMigration_def statesFolder_def pathJoin_def)
next
  assume a: "fsPathExists ctx ''.fx/states''
        \<and> (\<forall>c p. readStateFile h c p = Inr (objs p))
        \<and> (\<forall>c. readBicepContent h c = Inr b)"
  let ?ns = "fsReadDirSync h ctx ''.fx/states''"
  let ?conv = "\<lambda>obj. jsonObjectNamesConvertV3 h obj ''state.'' b"
  have paths: "envFilePath h e = SettingsFolderName h @ ''/.env.'' @ e"
    "stateFilePath e = ''.fx/states/state.'' @ e @ ''.json''" for e
    by (simp_all add: envFilePath_def stateFilePath_def statesFolder_def pathJoin_def)
  from a have stable: "\<forall>c p. readStateFile h c p = Inr (objs p)"
    and bicep: "\<forall>c. readBicepContent h c = Inr b" by simp_all
  from statesLoop_content [OF stable bicep, of ?ns ctx] obtain ctx' where
    run: "statesLoop h ?ns ctx = (ctx', None)"
    and content: "\<forall>e \<in> set (matchedEnvs ?ns).
                 tree ctx' (envFilePath h e)
                   = envNode (objs (stateFilePath e)) ?conv (tree ctx (envFilePath h e))"
    by blast
  have step: "statesMigration h ctx = (ctx', None)"
    using a run by (simp add: statesMigration_def statesFolder_def pathJoin_def)
  have files: "tree ctx' (SettingsFolderName h @ ''/.env.'' @ envName) \<noteq> None
        \<and> (\<forall>obj. objs (''.fx/states/state.'' @ envName @ ''.json'') = Some obj \<and> truthy obj \<longrightarrow>
              tree ctx' (SettingsFolderName h @ ''/.env.'' @ envName)
                = Some (File (jsonObjectNamesConvertV3 h obj ''state.'' b)))
        \<and> (\<not> truthyOpt (objs (''.fx/states/state.'' @ envName @ ''.json''))
             \<and> tree ctx (SettingsFolderName h @ ''/.env.'' @ envName) = None \<longrightarrow>
              tree ctx' (SettingsFolderName h @ ''/.env.'' @ envName) = Some (File []))"
    if m: "fileName \<in> set ?ns" "execStateRegex fileName = Some envName" for fileName envName
  proof -
    from m have "envName \<in> set (matchedEnvs ?ns)" by (auto simp: matchedEnvs_iff)
    with content have "tree ctx' (envFilePath h envName)
        = envNode (objs (stateFilePath envName)) ?conv (tree ctx (envFilePath h envName))"
      by blast
    then show ?thesis
      by (auto simp: paths envNode_def split: option.splits)
  qed
  have frame: "p = SettingsFolderName h
                 \<or> (\<exists>fileName \<in> set ?ns. \<exists>envName.
                       execStateRegex fileName = Some envName
                       \<and> p = SettingsFolderName h @ ''/.env.'' @ envName)"
    if d: "tree ctx' p \<noteq> tree ctx p" for p
  proof (rule ccontr)
    assume n: "\<not> ?thesis"
    then have "p \<noteq> SettingsFolderName h" by blast
    moreover have "\<forall>e \<in> set (matchedEnvs ?ns). p \<noteq> envFilePath h e"
    proof (intro ballI notI)
      fix e
      assume "e \<in> set (matchedEnvs ?ns)" and pe: "p = envFilePath h e"
      then obtain fileName where "fileName \<in> set ?ns" "execStateRegex fileName = Some e"
        by (auto simp: matchedEnvs_iff)
      with pe paths(1) [of e] n show False by blast
    qed
    ultimately have "tree ctx' p = tree ctx p"
      by (rule statesLoop_frame [OF run])
    with d show False by simp
  qed
  from step files frame
  show "\<exists>ctx'. statesMigration h ctx = (ctx', None)
           \<and> (\<forall>fileName \<in> set (fsReadDirSync h ctx ''.fx/states''). \<forall>envName.
                 execStateRegex fileName = Some envName \<longrightarrow>
                   tree ctx' (SettingsFolderName h @ ''/.env.'' @ envName) \<noteq> None
                   \<and> (\<forall>obj. objs (''.fx/states/state.'' @ envName @ ''.json'') = Some obj
                         \<and> truthy obj \<longrightarrow>
                         tree ctx' (SettingsFolderName h @ ''/.env.'' @ envName)
                           = Some (File (jsonObjectNamesConvertV3 h obj ''state.'' b)))
                   \<and> (\<not> truthyOpt (objs (''.fx/states/state.'' @ envName @ ''.json''))
                        \<and> tree ctx (SettingsFolderName h @ ''/.env.'' @ envName) = None \<longrightarrow>
                         tree ctx' (SettingsFolderName h @ ''/.env.'' @ envName)
                           = Some (File [])))
           \<and> (\<forall>p. tree ctx' p \<noteq> tree ctx p \<longrightarrow>
                 p = SettingsFolderName h
                 \<or> (\<exists>fileName \<in> set (fsReadDirSync h ctx ''.fx/states''). \<exists>envName.
                       execStateRegex fileName = Some envName
                       \<and> p = SettingsFolderName h @ ''/.env.'' @ envName))"
    by blast
qed

lemma demo_matches:
  "execStateRegex ''state.dev.json'' = Some ''dev''"
  "execStateRegex ''dev.userdata'' = None"
  "execStateRegex ''state.local.json'' = Some ''local''"
  by (simp_all add: matchStateAt_def isWordChar_def)

lemma statesMigration_env_files_demo:
  "fsPathExists statesProject ''.fx/states''
   \<and> (\<forall>c p. readStateFile demoHelpers c p = Inr (Some demoState))
   \<and> (\<forall>c. readBicepContent demoHelpers c = Inr ''bicep'')
   \<and> (\<exists>ctx'. statesMigration demoHelpers statesProject = (ctx', None)
          \<and> tree ctx' ''teamsfx/.env.dev'' = Some (File ''ENDPOINT=https://x'')
          \<and> tree ctx' ''teamsfx/.env.local'' = Some (File ''ENDPOINT=https://x'')
          \<and> tree ctx' ''teamsfx/.env.userdata'' = None)"
proof -
  have h: "fsPathExists statesProject ''.fx/states''"
    "\<forall>c p. readStateFile demoHelpers c p = Inr (Some demoState)"
    "\<forall>c. readBicepContent demoHelpers c = Inr ''bicep''"
    by (simp_all add: statesProject_def fsPathExists_def demoHelpers_def)
  have names: "fsReadDirSync demoHelpers statesProject ''.fx/states''
                 = [''state.dev.json'', ''dev.userdata'', ''state.local.json'']"
    by (simp add: demoHelpers_def)
  have t: "truthy demoState" by (simp add: demoState_def)
  from statesMigration_env_files
         [of statesProject demoHelpers "\<lambda>p. Some demoState" "''bicep''"] h
  obtain ctx' where run: "statesMigration demoHelpers statesProject = (ctx', None)"
    and files: "\<forall>fileName \<in> set (fsReadDirSync demoHelpers statesProject ''.fx/states'').
       \<forall>envName. execStateRegex fileName = Some envName \<longrightarrow>
         (\<forall>obj. Some demoState = Some obj \<and> truthy obj \<longrightarrow>
            tree ctx' (SettingsFolderName demoHelpers @ ''/.env.'' @ envName)
              = Some (File (jsonObjectNamesConvertV3 demoHelpers obj ''state.'' ''bicep'')))"
    and frame: "\<forall>p. tree ctx' p \<noteq> tree statesProject p \<longrightarrow>
                 p = SettingsFolderName demoHelpers
                 \<or> (\<exists>fileName \<in> set (fsReadDirSync demoHelpers statesProject ''.fx/states'').
                      \<exists>envName. execStateRegex fileName = Some envName
                       \<and> p = SettingsFolderName demoHelpers @ ''/.env.'' @ envName)"
    by blast
  have in1: "''state.dev.json'' \<in> set (fsReadDirSync demoHelpers statesProject ''.fx/states'')"
    and in3: "''state.local.json'' \<in> set (fsReadDirSync demoHelpers statesProject ''.fx/states'')"
    by (simp_all add: names)
  have st: "Some demoState = Some demoState \<and> truthy demoState" using t by simp
  from files [rule_format, OF in1 demo_matches(1) st]
  have dev: "tree ctx' ''teamsfx/.env.dev'' = Some (File ''ENDPOINT=https://x'')"
    by (simp add: demoHelpers_def)
  from files [rule_format, OF in3 demo_matches(3) st]
  have loc: "tree ctx' ''teamsfx/.env.local'' = Some (File ''ENDPOINT=https://x'')"
    by (simp add: demoHelpers_def)
  have ud: "tree ctx' ''teamsfx/.env.userdata'' = None"
  proof (rule ccontr)
    assume "tree ctx' ''teamsfx/.env.userdata'' \<noteq> None"
    then have "tree ctx' ''teamsfx/.env.userdata'' \<noteq> tree statesProject ''teamsfx/.env.userdata''"
      by (simp add: statesProject_def)
    with frame have "''teamsfx/.env.userdata'' = SettingsFolderName demoHelpers
       \<or> (\<exists>fileName \<in> set (fsReadDirSync demoHelpers statesProject ''.fx/states'').
            \<exists>envName. execStateRegex fileName = Some envName
              \<and> ''teamsfx/.env.userdata'' = SettingsFolderName demoHelpers @ ''/.env.'' @ envName)"
      by blast
    then show False
      unfolding names
      by (auto simp: demo_matches demoHelpers_def simp del: execStateRegex.simps)
  qed
  from h run dev loc ud show ?thesis by blast
qed

subsection \<open>C5: one environment file per state file\<close>

text \<open>
  Claim C5 at the input where the code departs from it. The folder \<open>.fx/states\<close>
  holds one file, \<open>state.dev.json.bak\<close>; there is no \<open>state.dev.json\<close>, so no
  environment has a state file and the claim has the step create no \<open>.env.*\<close> file.
  The step's regular expression is not anchored: it finds \<open>state.dev.json\<close> inside the
  name \<open>state.dev.json.bak\<close> and takes \<open>dev\<close> for an environment. The step then
  creates the empty file \<open>teamsfx/.env.dev\<close>, reads the state file
  \<open>.fx/states/state.dev.json\<close>, which does not exist, and returns without an error,
  leaving the empty environment file behind. With the file named \<open>state.dev.json\<close>
  the same expression gives the same environment, and a name that does not hold the
  pattern gives none.
\<close>

theorem statesMigration_backup_name_makes_env_file:
  "fsPathExists bakProject ''.fx/states''
   \<and> fsReadDirSync bakHelpers bakProject ''.fx/states'' = [''state.dev.json.bak'']
   \<and> tree bakProject ''.fx/states/state.dev.json'' = None
   \<and> tree bakProject ''teamsfx/.env.dev'' = None
   \<and> execStateRegex ''state.dev.json.bak'' = Some ''dev''
   \<and> execStateRegex ''state.dev.json'' = Some ''dev''
   \<and> execStateRegex ''dev.userdata'' = None
   \<and> snd (statesMigration bakHelpers bakProject) = None
   \<and> tree (fst (statesMigration bakHelpers bakProject)) ''teamsfx/.env.dev'' = Some (File [])"
proof -
  have m: "execStateRegex ''state.dev.json.bak'' = Some ''dev''"
    by (simp add: matchStateAt_def isWordChar_def)
  have ex: "fsPathExists bakProject ''.fx/states''"
    and none: "tree bakProject ''.fx/states/state.dev.json'' = None"
              "tree bakProject ''teamsfx/.env.dev'' = None"
    by (simp_all add: bakProject_def fsPathExists_def)
  have names: "fsReadDirSync bakHelpers bakProject ''.fx/states'' = [''state.dev.json.bak'']"
    by (simp add: bakHelpers_def)
  have run: "statesMigration bakHelpers bakProject
        = (fsCreateFile (fsEnsureDir bakProject ''teamsfx'') ''teamsfx/.env.dev'', None)"
    using ex
    by (simp add: statesMigration_def statesFolder_def pathJoin_def names m Let_def
          envFilePath_def stateFilePath_def bakHelpers_def fsCreateFile_def fsEnsureDir_def
          bakProject_def
        del: execStateRegex.simps)
  have made: "tree (fsCreateFile (fsEnsureDir bakProject ''teamsfx'') ''teamsfx/.env.dev'')
                ''teamsfx/.env.dev'' = Some (File [])"
    by (simp add: fsCreateFile_def fsEnsureDir_def bakProject_def)
  show ?thesis
    using ex names none m demo_matches(1,2) by (simp add: run made del: execStateRegex.simps)
qed


subsection \<open>The loop of \<open>migrateSetUpBot\<close>\<close>

lemma setUpBotStep_generated: "generatedLabels (setUpBotStep h task ctx) = generatedLabels ctx"
  by (simp add: setUpBotStep_def Let_def)

lemma migrateSetUpBotFrom_skip:
  assumes "\<forall>j. i \<le> j \<and> j < n \<longrightarrow> \<not> botTaskWithLabel h (tasks ctx ! j)"
    and "i \<le> n" and "n \<le> length (tasks ctx)"
  shows "migrateSetUpBotFrom h i ctx = migrateSetUpBotFrom h n ctx"
  using assms
proof (induction "n - i" arbitrary: i)
  case 0
  then show ?case by simp
next
  case (Suc k)
  then have lt: "i < n" and len: "i < length (tasks ctx)" by simp_all
  from Suc.prems(1) lt have no: "\<not> botTaskWithLabel h (tasks ctx ! i)" by simp
  have step: "migrateSetUpBotFrom h i ctx = migrateSetUpBotFrom h (i + 1) ctx"
  proof (cases "isSetUpBotTask h (tasks ctx ! i)")
    case False
    with len show ?thesis by (subst migrateSetUpBotFrom.simps) simp
  next
    case True
    with no have "\<forall>l. getProp (tasks ctx ! i) ''label'' \<noteq> Some (JStr l)"
      by (simp add: botTaskWithLabel_def)
    with len True show ?thesis
      by (subst migrateSetUpBotFrom.simps) (auto simp: Let_def split: option.splits json.splits)
  qed
  have "migrateSetUpBotFrom h (i + 1) ctx = migrateSetUpBotFrom h n ctx"
    using Suc.hyps(1) [of "i + 1"] Suc.hyps(2) Suc.prems lt by simp
  with step show ?case by simp
qed

lemma migrateSetUpBotFrom_end:
  "length (tasks ctx) \<le> i \<Longrightarrow> migrateSetUpBotFrom h i ctx = ctx"
  by (subst migrateSetUpBotFrom.simps) simp

lemma replaceInTask_other_key:
  "k \<noteq> ''dependsOn'' \<Longrightarrow> getProp (replaceInTask l rs t) k = getProp t k"
  by (cases t)
     (auto simp: replaceInTask_def update_conv' delete_conv'
        split: option.splits json.splits)

lemma replaceInTask_isObject: "isCommentObject (replaceInTask l rs t) = isCommentObject t"
  by (cases t) (auto simp: replaceInTask_def split: option.splits json.splits)

lemma botTaskWithLabel_replaceInTask:
  "botTaskWithLabel h (replaceInTask l rs t) = botTaskWithLabel h t"
  by (simp add: botTaskWithLabel_def isSetUpBotTask_def replaceInTask_other_key
        replaceInTask_isObject)

lemma migrateSetUpBot_single:
  assumes ts: "tasks ctx = pre @ task # post"
    and pre: "\<forall>t \<in> set pre. \<not> botTaskWithLabel h t"
    and post: "\<forall>t \<in> set post. \<not> botTaskWithLabel h t"
    and bot: "isSetUpBotTask h task" and lab: "getProp task ''label'' = Some (JStr l)"
  shows "migrateSetUpBot h ctx
           = snd (handleProvisionAndDeploy h (setUpBotStep h task ctx) (length pre) l)"
proof -
  let ?i = "length pre"
  have "\<forall>j. 0 \<le> j \<and> j < ?i \<longrightarrow> \<not> botTaskWithLabel h (tasks ctx ! j)"
    using pre ts by (simp add: nth_append)
  then have a: "migrateSetUpBot h ctx = migrateSetUpBotFrom h ?i ctx"
    unfolding migrateSetUpBot_def
    by (rule migrateSetUpBotFrom_skip) (simp_all add: ts)
  obtain i' c' where hp:
    "handleProvisionAndDeploy h (setUpBotStep h task ctx) ?i l = (i', c')"
    by (cases "handleProvisionAndDeploy h (setUpBotStep h task ctx) ?i l")
  have at: "tasks ctx ! ?i = task" "?i < length (tasks ctx)" using ts by simp_all
  have b: "migrateSetUpBotFrom h ?i ctx = migrateSetUpBotFrom h i' c'"
    using at bot lab hp by (subst migrateSetUpBotFrom.simps) simp
  have rest: "\<exists>front. tasks c' = front @ map (replaceInTask l
                 [cachedOrGenerated h ''Create resources'' (generatedLabels ctx)
                    (getLabels (pre @ post)),
                  cachedOrGenerated h ''Set up local projects'' (generatedLabels ctx)
                    (getLabels (pre @ post))]) post
              \<and> length front = i'"
    using hp ts
    by (auto simp: handleProvisionAndDeploy_def Let_def spliceArr_def replaceInDependsOn_def
          setUpBotStep_tasks setUpBotStep_generated split: if_splits)
  from rest obtain front rs where f: "tasks c' = front @ map (replaceInTask l rs) post"
    "length front = i'" by blast
  have "\<forall>j. i' \<le> j \<and> j < length (tasks c') \<longrightarrow> \<not> botTaskWithLabel h (tasks c' ! j)"
    using f post by (auto simp: nth_append botTaskWithLabel_replaceInTask)
  then have "migrateSetUpBotFrom h i' c' = migrateSetUpBotFrom h (length (tasks c')) c'"
    by (rule migrateSetUpBotFrom_skip) (simp_all add: f)
  then have c: "migrateSetUpBotFrom h i' c' = c'"
    by (simp add: migrateSetUpBotFrom_end)
  from a b c hp show ?thesis by simp
qed






subsection \<open>C7: the bot password in the local environment\<close>


lemmas demo_defs = demoDebug_def debugContext_def setUpBotTask_def preDebugCheckTask_def

lemma demo_bot_task:
  "tasks (debugContext [setUpBotTask pw, preDebugCheckTask])
     = [] @ setUpBotTask pw # [preDebugCheckTask]"
  "\<forall>t \<in> set []. \<not> botTaskWithLabel demoDebug t"
  "\<forall>t \<in> set [preDebugCheckTask]. \<not> botTaskWithLabel demoDebug t"
  "isSetUpBotTask demoDebug (setUpBotTask pw)"
  "getProp (setUpBotTask pw) ''label'' = Some (JStr ''Set up bot'')"
  "getProp (setUpBotTask pw) ''args''
     = Some (JObj [(''botId'', JStr ''bot-1''), (''botPassword'', JStr pw)])"
  by (simp_all add: demo_defs botTaskWithLabel_def isSetUpBotTask_def)


subsection \<open>Generated labels are new\<close>

lemma digitChar_inj: "d < 10 \<Longrightarrow> e < 10 \<Longrightarrow> digitChar d = digitChar e \<Longrightarrow> d = e"
  unfolding digitChar_def
  by (subst (asm) nth_eq_iff_index_eq) simp_all

lemma showNat_small: "n < 10 \<Longrightarrow> showNat n = [digitChar n]"
  by (subst showNat.simps) simp

lemma showNat_big:
  "\<not> n < 10 \<Longrightarrow> showNat n = showNat (n div 10) @ [digitChar (n mod 10)]"
  by (subst showNat.simps) simp

lemma showNat_not_Nil: "showNat n \<noteq> []"
  by (cases "n < 10") (simp_all add: showNat_small showNat_big)

lemma showNat_inj: "showNat n = showNat m \<Longrightarrow> n = m"
proof (induction n arbitrary: m rule: showNat.induct)
  case (1 n)
  show ?case
  proof (cases "n < 10")
    case True
    show ?thesis
    proof (cases "m < 10")
      case m: True
      with True "1.prems" show ?thesis by (simp add: showNat_small digitChar_inj)
    next
      case False
      with True "1.prems" showNat_not_Nil [of "m div 10"] show ?thesis
        by (simp add: showNat_small showNat_big)
    qed
  next
    case False
    show ?thesis
    proof (cases "m < 10")
      case True
      with False "1.prems" showNat_not_Nil [of "n div 10"] show ?thesis
        by (simp add: showNat_small showNat_big)
    next
      case m: False
      with False "1.prems" have "showNat (n div 10) = showNat (m div 10)"
        and "digitChar (n mod 10) = digitChar (m mod 10)"
        by (simp_all add: showNat_big)
      with "1.IH" [OF False] have "n div 10 = m div 10" and "n mod 10 = m mod 10"
        by (auto intro: digitChar_inj)
      then show ?thesis by (metis div_mult_mod_eq)
    qed
  qed
qed

lemma candidateLabel_inj: "candidateLabel base j = candidateLabel base k \<Longrightarrow> j = k"
  by (auto simp: candidateLabel_def split: if_splits dest: showNat_inj)

lemma candidateLabel_prefix: "prefix base (candidateLabel base k)"
  by (simp add: candidateLabel_def)

lemma find_Some_in: "find P xs = Some x \<Longrightarrow> x \<in> set xs \<and> P x"
  by (induction xs) (auto split: if_splits)

lemma specGenerateLabel_candidate:
  "\<exists>k \<le> length existing. specGenerateLabel base existing = candidateLabel base k
     \<and> candidateLabel base k \<notin> set existing"
proof -
  let ?cands = "map (candidateLabel base) [0 ..< Suc (length existing)]"
  have dist: "distinct ?cands"
    by (simp only: distinct_map distinct_upt)
       (auto simp: inj_on_def dest: candidateLabel_inj)
  have "\<not> set ?cands \<subseteq> set existing"
  proof
    assume "set ?cands \<subseteq> set existing"
    then have "card (set ?cands) \<le> card (set existing)" by (simp add: card_mono)
    moreover have "card (set ?cands) = length ?cands"
      using dist by (rule distinct_card)
    moreover have "length ?cands = Suc (length existing)"
      by (simp del: upt_Suc)
    moreover have "card (set existing) \<le> length existing" by (rule card_length)
    ultimately show False by simp
  qed
  then obtain l where "find (\<lambda>l. l \<notin> set existing) ?cands = Some l"
    by (cases "find (\<lambda>l. l \<notin> set existing) ?cands") (auto simp: find_None_iff)
  moreover from this have "l \<in> set ?cands" and new: "l \<notin> set existing"
    by (auto dest: find_Some_in)
  then obtain k where k: "k \<le> length existing" "l = candidateLabel base k"
    by (auto simp: less_Suc_eq_le simp del: upt_Suc)
  ultimately have "specGenerateLabel base existing = candidateLabel base k"
    by (simp add: specGenerateLabel_def del: upt_Suc)
  with k new show ?thesis by blast
qed

lemma specGenerateLabel_new: "specGenerateLabel base existing \<notin> set existing"
  using specGenerateLabel_candidate [of existing base] by auto

lemma specGenerateLabel_prefix: "prefix base (specGenerateLabel base existing)"
  using specGenerateLabel_candidate [of existing base] by (auto simp: candidateLabel_prefix)

subsection \<open>The cache of helper labels\<close>

lemma handleProvisionAndDeploy_first:
  assumes "generatedLabels ctx = []"
  shows "handleProvisionAndDeploy h ctx i l =
     (i + 2,
      ctx\<lparr> tasks := replaceInDependsOn l
                (spliceArr (i + 1) 0
                   [setUpLocalProjectsTask h
                      (generateLabel h ''Set up local projects''
                         (getLabels (spliceArr i 1 [] (tasks ctx))))]
                   (spliceArr i 0
                      [createResourcesTask h
                         (generateLabel h ''Create resources''
                            (getLabels (spliceArr i 1 [] (tasks ctx))))]
                      (spliceArr i 1 [] (tasks ctx))))
                [generateLabel h ''Create resources'' (getLabels (spliceArr i 1 [] (tasks ctx))),
                 generateLabel h ''Set up local projects''
                   (getLabels (spliceArr i 1 [] (tasks ctx)))],
           generatedLabels :=
             [generateLabel h ''Create resources'' (getLabels (spliceArr i 1 [] (tasks ctx))),
              generateLabel h ''Set up local projects''
                (getLabels (spliceArr i 1 [] (tasks ctx)))] \<rparr>)"
  using assms by (simp add: handleProvisionAndDeploy_def cachedOrGenerated_def Let_def)

lemma handleProvisionAndDeploy_cached:
  assumes "generatedLabels ctx = [cr, su]"
    and "prefix ''Create resources'' cr" and "prefix ''Set up local projects'' su"
  shows "handleProvisionAndDeploy h ctx i l =
     (i, ctx\<lparr> tasks := replaceInDependsOn l (spliceArr i 1 [] (tasks ctx)) [cr, su] \<rparr>)"
proof -
  from assms(2) have "\<not> prefix ''Set up local projects'' cr"
    by (auto simp: prefix_def)
  with assms show ?thesis
    by (simp add: handleProvisionAndDeploy_def cachedOrGenerated_def Let_def)
qed

lemma handleProvisionAndDeploy_cong:
  assumes "tasks c = tasks d" and "generatedLabels c = generatedLabels d"
  shows "tasks (snd (handleProvisionAndDeploy h c i l))
           = tasks (snd (handleProvisionAndDeploy h d i l))
         \<and> generatedLabels (snd (handleProvisionAndDeploy h c i l))
           = generatedLabels (snd (handleProvisionAndDeploy h d i l))"
  using assms by (simp add: handleProvisionAndDeploy_def Let_def)

lemma helper_labels_differ:
  "prefix ''Create resources'' cr \<Longrightarrow> prefix ''Set up local projects'' su \<Longrightarrow> cr \<noteq> su"
  by (auto simp: prefix_def)

lemma findIndex_Some:
  "findIndex P xs = Some i \<Longrightarrow> i < length xs \<and> P (xs ! i)"
proof (induction xs arbitrary: i)
  case Nil
  then show ?case by simp
next
  case (Cons x xs)
  then show ?case by (cases "P x") (auto simp: nth_Cons')
qed

lemma migratePreDebugCheck_labels:
  assumes "findIndex isPreDebugCheckTask (tasks ctx) = Some k"
  shows "dependsOnOf (tasks (migratePreDebugCheck h ctx) ! k)
           = Some (JArr [JStr (generateLabel h ''Create resources'' (getLabels (tasks ctx))),
                         JStr (generateLabel h ''Set up local projects''
                                 (getLabels (tasks ctx)))])
         \<and> generatedLabels (migratePreDebugCheck h ctx) = generatedLabels ctx"
proof -
  from findIndex_Some [OF assms] have k: "k < length (tasks ctx)"
    and "isPreDebugCheckTask (tasks ctx ! k)" by simp_all
  then obtain kvs where obj: "tasks ctx ! k = JObj kvs"
    by (cases "tasks ctx ! k") (simp_all add: isPreDebugCheckTask_def shellTaskWith_def)
  show ?thesis
    using assms k obj
    by (simp add: migratePreDebugCheck_def Let_def spliceArr_def dependsOnOf_def
          setKey_def deleteKey_def update_conv' delete_conv')
qed

lemma migratePreDebugCheck_helper_tasks:
  assumes "findIndex isPreDebugCheckTask (tasks ctx) = Some k"
  shows "length (tasks (migratePreDebugCheck h ctx)) = length (tasks ctx) + 2
         \<and> tasks (migratePreDebugCheck h ctx) ! (k + 1)
             = createResourcesTask h
                 (generateLabel h ''Create resources'' (getLabels (tasks ctx)))
         \<and> tasks (migratePreDebugCheck h ctx) ! (k + 2)
             = setUpLocalProjectsTask h
                 (generateLabel h ''Set up local projects'' (getLabels (tasks ctx)))"
proof -
  from findIndex_Some [OF assms] have k: "k < length (tasks ctx)" by simp
  let ?cr = "createResourcesTask h
                 (generateLabel h ''Create resources'' (getLabels (tasks ctx)))"
  let ?su = "setUpLocalProjectsTask h
                 (generateLabel h ''Set up local projects'' (getLabels (tasks ctx)))"
  obtain pre t post where ts: "tasks ctx = pre @ t # post" and len: "length pre = k"
    using id_take_nth_drop [OF k] by (metis k length_take min.absorb2 less_imp_le)
  have s1: "spliceArr (Suc k) 0 [?cr] (tasks ctx) = pre @ t # ?cr # post"
    using ts len by (simp add: spliceArr_def)
  have s2: "spliceArr (Suc (Suc k)) 0 [?su] (pre @ t # ?cr # post) = pre @ t # ?cr # ?su # post"
    using len by (simp add: spliceArr_def)
  have upd: "(pre @ t # ?cr # ?su # post)[k := x] = pre @ x # ?cr # ?su # post" for x
    using len by (simp add: list_update_append)
  have res: "\<exists>x. tasks (migratePreDebugCheck h ctx) = pre @ x # ?cr # ?su # post"
    using assms by (simp add: migratePreDebugCheck_def Let_def s1 s2 upd)
  then obtain x where x: "tasks (migratePreDebugCheck h ctx) = pre @ x # ?cr # ?su # post"
    by blast
  show ?thesis
    using len by (simp add: x ts nth_append)
qed

text \<open>The first request of a run that goes through \<open>handleProvisionAndDeploy\<close> (no
  label generated yet) generates the two helper labels and stores them in
  \<open>generatedLabels\<close>. When the generator returns labels that start with the base it is
  given, every later call of \<open>handleProvisionAndDeploy\<close> with that cache uses the
  same two labels, leaves the cache as it is and splices no helper task in: it only
  drops the replaced task and relabels.\<close>

lemma handleProvisionAndDeploy_reuses_cache:
  assumes "generatedLabels ctx = []"
    and "handleProvisionAndDeploy h ctx i l = (i', ctx')"
    and "\<And>base ls. prefix base (generateLabel h base ls)"
  shows "\<exists>cr su. generatedLabels ctx' = [cr, su] \<and> cr \<noteq> su
           \<and> cr = generateLabel h ''Create resources'' (getLabels (spliceArr i 1 [] (tasks ctx)))
           \<and> su = generateLabel h ''Set up local projects''
                    (getLabels (spliceArr i 1 [] (tasks ctx)))
           \<and> (\<forall>c2 i2 l2. generatedLabels c2 = [cr, su] \<longrightarrow>
                 handleProvisionAndDeploy h c2 i2 l2 =
                   (i2, c2\<lparr> tasks := replaceInDependsOn l2
                                       (spliceArr i2 1 [] (tasks c2)) [cr, su] \<rparr>))"
proof -
  let ?existing = "getLabels (spliceArr i 1 [] (tasks ctx))"
  let ?cr = "generateLabel h ''Create resources'' ?existing"
  let ?su = "generateLabel h ''Set up local projects'' ?existing"
  have gen: "generatedLabels ctx' = [?cr, ?su]"
    using assms(2) by (auto simp: handleProvisionAndDeploy_first [OF assms(1)])
  have pc: "prefix ''Create resources'' ?cr" and ps: "prefix ''Set up local projects'' ?su"
    by (rule assms(3))+
  have diff: "?cr \<noteq> ?su" using pc ps by (rule helper_labels_differ)
  have cached: "handleProvisionAndDeploy h c2 i2 l2 =
                   (i2, c2\<lparr> tasks := replaceInDependsOn l2
                                       (spliceArr i2 1 [] (tasks c2)) [?cr, ?su] \<rparr>)"
    if "generatedLabels c2 = [?cr, ?su]" for c2 :: "'a DebugMigrationContext" and i2 l2
    using that pc ps by (rule handleProvisionAndDeploy_cached)
  from gen diff cached show ?thesis by blast
qed

text \<open>\<open>migratePreDebugCheck\<close> does not look at the cache. Whatever the generator is,
  as long as it returns a label that is not among the labels it is given: when a label
  of the cache is the label of a task of the list, as it is once
  \<open>handleProvisionAndDeploy\<close> has spliced its helper tasks in, \<open>migratePreDebugCheck\<close>
  gives its pre-debug-check task another \<open>Create resources\<close> label than the cached one,
  splices two more helper tasks in and leaves \<open>generatedLabels\<close> as it is.\<close>

lemma migratePreDebugCheck_ignores_cache:
  assumes "\<And>base ls. generateLabel h base ls \<notin> set ls"
    and "findIndex isPreDebugCheckTask (tasks ctx) = Some k"
    and "cr \<in> set (generatedLabels ctx)" and "cr \<in> set (getLabels (tasks ctx))"
  shows "\<exists>cr' su'. cr' \<noteq> cr
           \<and> dependsOnOf (tasks (migratePreDebugCheck h ctx) ! k)
               = Some (JArr [JStr cr', JStr su'])
           \<and> tasks (migratePreDebugCheck h ctx) ! (k + 1) = createResourcesTask h cr'
           \<and> tasks (migratePreDebugCheck h ctx) ! (k + 2) = setUpLocalProjectsTask h su'
           \<and> length (tasks (migratePreDebugCheck h ctx)) = length (tasks ctx) + 2
           \<and> generatedLabels (migratePreDebugCheck h ctx) = generatedLabels ctx
           \<and> cr \<in> set (generatedLabels (migratePreDebugCheck h ctx))"
proof -
  let ?cr = "generateLabel h ''Create resources'' (getLabels (tasks ctx))"
  let ?su = "generateLabel h ''Set up local projects'' (getLabels (tasks ctx))"
  have "?cr \<notin> set (getLabels (tasks ctx))" by (rule assms(1))
  with assms(4) have "?cr \<noteq> cr" by blast
  with migratePreDebugCheck_labels [OF assms(2), of h]
    migratePreDebugCheck_helper_tasks [OF assms(2), of h] assms(3)
  show ?thesis by auto
qed

lemma demo_helper_tasks:
  "createResourcesTask demoDebug l
     = JObj [(''label'', JStr l), (''type'', JStr ''teamsfx''), (''command'', JStr ''provision'')]"
  "setUpLocalProjectsTask demoDebug l
     = JObj [(''label'', JStr l), (''type'', JStr ''teamsfx''), (''command'', JStr ''deploy'')]"
  by (simp_all add: demoDebug_def)

lemma demo_generateLabel: "generateLabel demoDebug = specGenerateLabel"
  by (simp add: demoDebug_def)

lemma demo_first_request:
  "handleProvisionAndDeploy demoDebug (debugContext [setUpBotTask ''p@ss'', preDebugCheckTask])
      0 ''Set up bot''
     = (2, \<lparr> tasks = [createResourcesTask demoDebug ''Create resources'',
                      setUpLocalProjectsTask demoDebug ''Set up local projects'',
                      taskPreDebugAfter],
             generatedLabels = [''Create resources'', ''Set up local projects''],
             appYmlConfig = JObj [], migrationContext = [] \<rparr>)"
proof -
  have g: "specGenerateLabel ''Create resources'' [''Pre Debug Check''] = ''Create resources''"
    "specGenerateLabel ''Set up local projects'' [''Pre Debug Check'']
       = ''Set up local projects''"
    by (simp_all add: specGenerateLabel_def candidateLabel_def upt_rec)
  show ?thesis
    by (simp add: handleProvisionAndDeploy_def cachedOrGenerated_def Let_def spliceArr_def
          demo_defs taskPreDebugAfter_def g replaceInDependsOn_def replaceInTask_def)
qed

lemma demo_after_setUpBot:
  "tasks (migrateSetUpBot demoDebug (debugContext [setUpBotTask ''p@ss'', preDebugCheckTask]))
     = [createResourcesTask demoDebug ''Create resources'',
        setUpLocalProjectsTask demoDebug ''Set up local projects'',
        taskPreDebugAfter]"
  "generatedLabels
     (migrateSetUpBot demoDebug (debugContext [setUpBotTask ''p@ss'', preDebugCheckTask]))
     = [''Create resources'', ''Set up local projects'']"
proof -
  let ?c1 = "migrateSetUpBot demoDebug (debugContext [setUpBotTask ''p@ss'', preDebugCheckTask])"
  have "?c1 = snd (handleProvisionAndDeploy demoDebug
                (setUpBotStep demoDebug (setUpBotTask ''p@ss'')
                   (debugContext [setUpBotTask ''p@ss'', preDebugCheckTask]))
                (length ([] :: json list)) ''Set up bot'')"
    by (rule migrateSetUpBot_single [OF demo_bot_task(1-5)])
  moreover have "tasks (snd (handleProvisionAndDeploy demoDebug
                (setUpBotStep demoDebug (setUpBotTask ''p@ss'')
                   (debugContext [setUpBotTask ''p@ss'', preDebugCheckTask]))
                0 ''Set up bot''))
        = tasks (snd (handleProvisionAndDeploy demoDebug
                (debugContext [setUpBotTask ''p@ss'', preDebugCheckTask]) 0 ''Set up bot''))
      \<and> generatedLabels (snd (handleProvisionAndDeploy demoDebug
                (setUpBotStep demoDebug (setUpBotTask ''p@ss'')
                   (debugContext [setUpBotTask ''p@ss'', preDebugCheckTask]))
                0 ''Set up bot''))
        = generatedLabels (snd (handleProvisionAndDeploy demoDebug
                (debugContext [setUpBotTask ''p@ss'', preDebugCheckTask]) 0 ''Set up bot''))"
    by (rule handleProvisionAndDeploy_cong)
       (simp_all add: setUpBotStep_tasks setUpBotStep_generated)
  ultimately show "tasks ?c1 = [createResourcesTask demoDebug ''Create resources'',
                      setUpLocalProjectsTask demoDebug ''Set up local projects'',
                      taskPreDebugAfter]"
    and "generatedLabels ?c1 = [''Create resources'', ''Set up local projects'']"
    by (simp_all add: demo_first_request)
qed

subsection \<open>C6: a helper label requested twice in one run\<close>

text \<open>
  Claim C6 at the input where the code departs from it. The task list holds a set-up-bot
  task, labelled \<open>Set up bot\<close>, and a pre-debug-check task that depends on it.
  \<open>migrateSetUpBot\<close> requests the helper labels through \<open>handleProvisionAndDeploy\<close>:
  the labels \<open>Create resources\<close> and \<open>Set up local projects\<close> are generated, stored
  in \<open>generatedLabels\<close>, and the two helper tasks are spliced in. \<open>migratePreDebugCheck\<close>
  then requests the helper labels in the same run. The claim has that request yield the
  cached label and no further helper task. The code asks \<open>generateLabel\<close> again
  instead: the pre-debug-check task is made to depend on a \<open>Create resources\<close> label
  that is not the cached one, a second \<open>Create resources\<close> task and a second
  \<open>Set up local projects\<close> task are spliced in, so that the list holds five tasks, two
  of them for each helper, and \<open>generatedLabels\<close> still holds the first two labels
  only.
\<close>

theorem migratePreDebugCheck_generates_again:
  "generatedLabels (migrateSetUpBot demoDebug
       (debugContext [setUpBotTask ''p@ss'', preDebugCheckTask]))
     = [''Create resources'', ''Set up local projects'']
   \<and> getLabels (tasks (migrateSetUpBot demoDebug
         (debugContext [setUpBotTask ''p@ss'', preDebugCheckTask])))
       = [''Create resources'', ''Set up local projects'', ''Pre Debug Check'']
   \<and> generatedLabels (migratePreDebugCheck demoDebug (migrateSetUpBot demoDebug
         (debugContext [setUpBotTask ''p@ss'', preDebugCheckTask])))
       = [''Create resources'', ''Set up local projects'']
   \<and> length (tasks (migratePreDebugCheck demoDebug (migrateSetUpBot demoDebug
         (debugContext [setUpBotTask ''p@ss'', preDebugCheckTask])))) = 5
   \<and> map (prefix ''Create resources'')
        (getLabels (tasks (migratePreDebugCheck demoDebug (migrateSetUpBot demoDebug
           (debugContext [setUpBotTask ''p@ss'', preDebugCheckTask])))))
       = [True, False, False, True, False]
   \<and> map (prefix ''Set up local projects'')
        (getLabels (tasks (migratePreDebugCheck demoDebug (migrateSetUpBot demoDebug
           (debugContext [setUpBotTask ''p@ss'', preDebugCheckTask])))))
       = [False, True, False, False, True]
   \<and> dependsOnOf (tasks (migratePreDebugCheck demoDebug (migrateSetUpBot demoDebug
         (debugContext [setUpBotTask ''p@ss'', preDebugCheckTask]))) ! 2)
       = Some (JArr [JStr (generateLabel demoDebug ''Create resources''
                             [''Create resources'', ''Set up local projects'',
                              ''Pre Debug Check'']),
                     JStr (generateLabel demoDebug ''Set up local projects''
                             [''Create resources'', ''Set up local projects'',
                              ''Pre Debug Check''])])
   \<and> generateLabel demoDebug ''Create resources''
        [''Create resources'', ''Set up local projects'', ''Pre Debug Check'']
       \<noteq> ''Create resources''
   \<and> generateLabel demoDebug ''Set up local projects''
        [''Create resources'', ''Set up local projects'', ''Pre Debug Check'']
       \<noteq> ''Set up local projects''"
proof -
  let ?c1 = "migrateSetUpBot demoDebug (debugContext [setUpBotTask ''p@ss'', preDebugCheckTask])"
  note t = demo_after_setUpBot(1) and g = demo_after_setUpBot(2)
  have labels: "getLabels (tasks ?c1)
                  = [''Create resources'', ''Set up local projects'', ''Pre Debug Check'']"
    by (simp add: t demo_helper_tasks taskPreDebugAfter_def)
  have g2: "generateLabel demoDebug ''Create resources''
              [''Create resources'', ''Set up local projects'', ''Pre Debug Check'']
            = ''Create resources#2''"
    "generateLabel demoDebug ''Set up local projects''
       [''Create resources'', ''Set up local projects'', ''Pre Debug Check'']
     = ''Set up local projects#2''"
    by (simp_all add: demo_generateLabel specGenerateLabel_def candidateLabel_def upt_rec
          digitChar_def showNat_small)
  have idx: "findIndex isPreDebugCheckTask (tasks ?c1) = Some 2"
    by (simp add: t demo_helper_tasks taskPreDebugAfter_def isPreDebugCheckTask_def
          shellTaskWith_def)
  have run: "tasks (migratePreDebugCheck demoDebug ?c1)
      = [createResourcesTask demoDebug ''Create resources'',
         setUpLocalProjectsTask demoDebug ''Set up local projects'',
         JObj [(''label'', JStr ''Pre Debug Check''),
               (''dependsOn'', JArr [JStr ''Create resources#2'',
                                     JStr ''Set up local projects#2'']),
               (''dependsOrder'', JStr ''sequence'')],
         createResourcesTask demoDebug ''Create resources#2'',
         setUpLocalProjectsTask demoDebug ''Set up local projects#2'']"
    unfolding migratePreDebugCheck_def idx labels g2 Let_def option.case
    by (simp add: t spliceArr_def taskPreDebugAfter_def setKey_def deleteKey_def)
  have gen: "generatedLabels (migratePreDebugCheck demoDebug ?c1) = generatedLabels ?c1"
    using migratePreDebugCheck_labels [OF idx, of demoDebug] by simp
  show ?thesis
    by (simp add: run g gen labels g2 dependsOnOf_def demo_helper_tasks)
qed

end
